theory Spec2Isabelle
  imports Complex_Main "HOL-Library.AList"
begin

section \<open>Python values shared by the whole development\<close>

text \<open>
  Python's \<open>float\<close> fields are only stored, copied and compared with the bounds of the
  schema in the code verified here; no arithmetic is done on them. They are modelled by the
  real number a finite double denotes (NaN and the infinities are outside the model).
  Strings are lists of 8-bit characters, read as the code points below 256.
\<close>

type_synonym float = real

datatype error =
    IndexError
  | ValueError string
  | ValidationError "string list"
  | KeyError string
  | TypeError string
  | NameError string
  | AttributeError string
  | JSONDecodeError string
  | RequestException string
  | TimeoutExpired
  | OverflowError
  | OSError string
  | CalledProcessError int string string

section \<open>models/autotune.py\<close>

record AutotuneBasalEntry =
  start :: string
  minutes :: int
  rate :: float

record AutotuneResult =
  basalprofile :: "AutotuneBasalEntry list"
  carb_ratio :: float
  sens :: float
  dia :: "float option"

record AutotuneRecommendations =
  result :: AutotuneResult
  profile_name :: string
  analysis_date :: string
  days_analyzed :: int

text \<open>
  The constraints the \<open>Field\<close> declarations put on the values: \<open>ge=0\<close> on
  \<open>minutes\<close> and \<open>rate\<close>, \<open>gt=0\<close> on \<open>carb_ratio\<close>, \<open>sens\<close> and \<open>dia\<close>,
  \<open>ge=1\<close> on \<open>days_analyzed\<close>. An instance built by the class satisfies them.
\<close>

definition valid_AutotuneResult :: "AutotuneResult \<Rightarrow> bool" where
  "valid_AutotuneResult res \<longleftrightarrow>
     list_all (\<lambda>b. 0 \<le> minutes b \<and> 0 \<le> rate b) (basalprofile res)
     \<and> 0 < carb_ratio res \<and> 0 < AutotuneResult.sens res
     \<and> (case AutotuneResult.dia res of None \<Rightarrow> True | Some d \<Rightarrow> 0 < d)"

definition valid_AutotuneRecommendations :: "AutotuneRecommendations \<Rightarrow> bool" where
  "valid_AutotuneRecommendations R \<longleftrightarrow> valid_AutotuneResult (result R) \<and> 1 \<le> days_analyzed R"

section \<open>models/nightscout.py\<close>

text \<open>
  \<open>BasalScheduleEntry\<close>, \<open>CarbRatioEntry\<close> and \<open>SensitivityEntry\<close> declare the same three
  fields; one record holds them and the class is kept as a tag on the heap object.
  \<open>TargetEntry\<close> adds \<open>low\<close> and \<open>high\<close>.
\<close>

record ScheduleEntry =
  time :: string
  "value" :: float
  timeAsSeconds :: int

record TargetEntry = ScheduleEntry +
  low :: float
  high :: float

text \<open>
  \<open>ProfileStore\<close>. The five schedules are lists of model instances. On the heap the
  fields hold the addresses of the list objects (\<open>'s = 't = nat\<close>); read back as a value
  they hold the entries themselves.
\<close>

record ('s, 't) ProfileStore =
  dia :: float
  carbratio :: 's
  sens :: 's
  basal :: 's
  target_low :: 't
  target_high :: 't
  timezone :: string
  units :: string

type_synonym ProfileValue = "(ScheduleEntry list, TargetEntry list) ProfileStore"

section \<open>The object store\<close>

text \<open>
  \<open>apply_recommendations\<close> copies a profile and then assigns to attributes of the copy, so
  the claims on it depend on which objects are shared. Mutable Python objects live in a
  store; an address is an index into it and allocation appends. Strings, floats and ints
  are immutable and are kept inside the object that refers to them.
\<close>

type_synonym addr = nat

datatype cls = CarbRatioEntry | SensitivityEntry | BasalScheduleEntry

datatype obj =
    Entry cls ScheduleEntry
  | Target TargetEntry
  | ListObj "addr list"
  | Profile "(addr, addr) ProfileStore"

type_synonym heap = "obj list"

definition alloc :: "heap \<Rightarrow> obj \<Rightarrow> addr \<times> heap" where
  "alloc h x = (length h, h @ [x])"

text \<open>
  The elements of a list object and the fields of a profile object. Python has no
  dangling reference and validation puts objects of the annotated classes into the
  fields, so the accessors are only ever applied to an address inside the store and to
  an object of the right kind; the properties below assume a profile that reads back
  (\<open>read_profile\<close>), which says exactly that. On other arguments the accessors return a
  fixed default.
\<close>

fun items :: "obj \<Rightarrow> addr list" where
  "items (ListObj xs) = xs"
| "items _ = []"

fun attrs :: "obj \<Rightarrow> (addr, addr) ProfileStore" where
  "attrs (Profile po) = po"
| "attrs _ = \<lparr>ProfileStore.dia = 0, carbratio = 0, ProfileStore.sens = 0, basal = 0,
       target_low = 0, target_high = 0, timezone = [], ProfileStore.units = []\<rparr>"

text \<open>\<open>entry.value = v\<close> on a model instance.\<close>

fun setattr_value :: "obj \<Rightarrow> float \<Rightarrow> obj" where
  "setattr_value (Entry c e) v = Entry c (e\<lparr>value := v\<rparr>)"
| "setattr_value (Target t) v = Target (t\<lparr>value := v\<rparr>)"
| "setattr_value x v = x"

definition set_value :: "heap \<Rightarrow> addr \<Rightarrow> float \<Rightarrow> heap" where
  "set_value h a v = h[a := setattr_value (h ! a) v]"

text \<open>\<open>lst.append(a)\<close> on a list object.\<close>

definition list_append :: "heap \<Rightarrow> addr \<Rightarrow> addr \<Rightarrow> heap" where
  "list_append h l a = h[l := ListObj (items (h ! l) @ [a])]"

subsection \<open>Reading a profile back as a value\<close>

definition lookup :: "heap \<Rightarrow> addr \<Rightarrow> obj option" where
  "lookup h a = (if a < length h then Some (h ! a) else None)"

definition get_entry :: "heap \<Rightarrow> cls \<Rightarrow> addr \<Rightarrow> ScheduleEntry option" where
  "get_entry h c a =
     (case lookup h a of
        Some (Entry c' e) \<Rightarrow> if c' = c then Some e else None
      | _ \<Rightarrow> None)"

definition get_target :: "heap \<Rightarrow> addr \<Rightarrow> TargetEntry option" where
  "get_target h a = (case lookup h a of Some (Target t) \<Rightarrow> Some t | _ \<Rightarrow> None)"

definition get_list :: "heap \<Rightarrow> (addr \<Rightarrow> 'a option) \<Rightarrow> addr \<Rightarrow> 'a list option" where
  "get_list h rd l =
     (case lookup h l of
        Some (ListObj xs) \<Rightarrow> those (map rd xs)
      | _ \<Rightarrow> None)"

text \<open>
  \<open>read_profile h p\<close> is the value of the \<open>ProfileStore\<close> at address \<open>p\<close>: every field,
  with the schedules read through their list objects. It is \<open>None\<close> unless \<open>p\<close> is a
  profile whose schedules are lists of instances of the annotated classes, which is
  what validation by the model class establishes.
\<close>

definition read_profile :: "heap \<Rightarrow> addr \<Rightarrow> ProfileValue option" where
  "read_profile h p =
     (case lookup h p of
        Some (Profile po) \<Rightarrow>
          Option.bind (get_list h (get_entry h CarbRatioEntry) (carbratio po)) (\<lambda>cr.
          Option.bind (get_list h (get_entry h SensitivityEntry) (ProfileStore.sens po)) (\<lambda>se.
          Option.bind (get_list h (get_entry h BasalScheduleEntry) (basal po)) (\<lambda>ba.
          Option.bind (get_list h (get_target h) (target_low po)) (\<lambda>lo.
          Option.bind (get_list h (get_target h) (target_high po)) (\<lambda>hi.
            Some \<lparr>ProfileStore.dia = ProfileStore.dia po, carbratio = cr,
                  ProfileStore.sens = se, basal = ba, target_low = lo, target_high = hi,
                  timezone = timezone po, ProfileStore.units = ProfileStore.units po\<rparr>)))))
      | _ \<Rightarrow> None)"

text \<open>The addresses of the mutable objects a profile is made of.\<close>

definition reachable :: "heap \<Rightarrow> addr \<Rightarrow> addr set" where
  "reachable h p =
     (let po = attrs (h ! p);
          ls = [carbratio po, ProfileStore.sens po, basal po, target_low po, target_high po]
      in {p} \<union> set ls \<union> (\<Union>l \<in> set ls. set (items (h ! l))))"

subsection \<open>\<open>copy.deepcopy\<close>\<close>

text \<open>
  \<open>model_copy(deep=True)\<close> deep-copies the instance's field dictionary with one memo
  for the whole copy: an object met a second time is not copied again, so sharing inside
  the original is reproduced in the copy. Field values that are \<open>str\<close>, \<open>float\<close> or
  \<open>int\<close> are returned as they are. A model instance in a list is a leaf: all its fields
  are immutable.
\<close>

type_synonym memo = "addr \<rightharpoonup> addr"

definition deepcopy_leaf :: "heap \<Rightarrow> memo \<Rightarrow> addr \<Rightarrow> addr \<times> heap \<times> memo" where
  "deepcopy_leaf h m a =
     (case m a of
        Some a' \<Rightarrow> (a', h, m)
      | None \<Rightarrow> (length h, h @ [h ! a], m(a \<mapsto> length h)))"

fun deepcopy_items :: "heap \<Rightarrow> memo \<Rightarrow> addr list \<Rightarrow> addr list \<times> heap \<times> memo" where
  "deepcopy_items h m [] = ([], h, m)"
| "deepcopy_items h m (a # as) =
     (let (a', h1, m1) = deepcopy_leaf h m a;
          (as', h2, m2) = deepcopy_items h1 m1 as
      in (a' # as', h2, m2))"

text \<open>
  A list: the new, empty list is entered in the memo before its elements are copied
  into it.
\<close>

definition deepcopy_list :: "heap \<Rightarrow> memo \<Rightarrow> addr \<Rightarrow> addr \<times> heap \<times> memo" where
  "deepcopy_list h m l =
     (case m l of
        Some l' \<Rightarrow> (l', h, m)
      | None \<Rightarrow>
          (let l' = length h;
               (ys, h1, m1) = deepcopy_items (h @ [ListObj []]) (m(l \<mapsto> l')) (items (h ! l))
           in (l', h1[l' := ListObj ys], m1)))"

definition model_copy_deep :: "heap \<Rightarrow> addr \<Rightarrow> addr \<times> heap" where
  "model_copy_deep h p =
     (let po = attrs (h ! p);
          (cr, h1, m1) = deepcopy_list h Map.empty (carbratio po);
          (se, h2, m2) = deepcopy_list h1 m1 (ProfileStore.sens po);
          (ba, h3, m3) = deepcopy_list h2 m2 (basal po);
          (lo, h4, m4) = deepcopy_list h3 m3 (target_low po);
          (hi, h5, m5) = deepcopy_list h4 m4 (target_high po)
      in alloc h5 (Profile (po\<lparr>carbratio := cr, ProfileStore.sens := se, basal := ba,
                               target_low := lo, target_high := hi\<rparr>)))"

section \<open>Python built-ins used by \<open>apply_recommendations\<close>\<close>

text \<open>\<open>s.split(sep)\<close> for a one-character separator: never an empty list.\<close>

fun split :: "char \<Rightarrow> string \<Rightarrow> string list" where
  "split sep [] = [[]]"
| "split sep (c # cs) =
     (if c = sep then [] # split sep cs
      else (case split sep cs of
              [] \<Rightarrow> [[c]]
            | p # ps \<Rightarrow> (c # p) # ps))"

text \<open>\<open>xs[i]\<close> for an index that is not negative.\<close>

definition getitem :: "'a list \<Rightarrow> nat \<Rightarrow> error + 'a" where
  "getitem xs i = (if i < length xs then Inr (xs ! i) else Inl IndexError)"

text \<open>
  \<open>int(s)\<close> for a string, base 10: surrounding whitespace is dropped, one sign is
  allowed, then come decimal digits, where single underscores may stand between two
  digits. Anything else raises \<open>ValueError\<close>. The whitespace \<open>int\<close> skips is the
  ASCII whitespace and, below code point 256, the two non-ASCII spaces. (The
  interpreter's limit on the number of digits, 4300 unless reconfigured, is not
  modelled.)
\<close>

definition isspace :: "char \<Rightarrow> bool" where
  "isspace c \<longleftrightarrow> of_char c \<in> {9, 10, 11, 12, 13, 32, 133, 160 :: nat}"

definition isdigit :: "char \<Rightarrow> bool" where
  "isdigit c \<longleftrightarrow> 48 \<le> (of_char c :: nat) \<and> (of_char c :: nat) \<le> 57"

definition digit :: "char \<Rightarrow> int" where
  "digit c = int (of_char c) - 48"

definition strip :: "string \<Rightarrow> string" where
  "strip s = rev (dropWhile isspace (rev (dropWhile isspace s)))"

fun digits :: "int \<Rightarrow> string \<Rightarrow> int option" where
  "digits acc [] = Some acc"
| "digits acc [c] = (if isdigit c then Some (10 * acc + digit c) else None)"
| "digits acc (c # d # cs) =
     (if isdigit c then digits (10 * acc + digit c) (d # cs)
      else if c = CHR ''_'' \<and> isdigit d then digits (10 * acc + digit d) cs
      else None)"

definition unsigned :: "string \<Rightarrow> int option" where
  "unsigned s =
     (case s of
        [] \<Rightarrow> None
      | c # cs \<Rightarrow> if isdigit c then digits (digit c) cs else None)"

definition py_int :: "string \<Rightarrow> error + int" where
  "py_int s =
     (let t = strip s;
          r = (case t of
                 [] \<Rightarrow> None
               | c # cs \<Rightarrow>
                   if c = CHR ''-'' then map_option uminus (unsigned cs)
                   else if c = CHR ''+'' then unsigned cs
                   else unsigned t)
      in case r of
           None \<Rightarrow> Inl (ValueError ''invalid literal for int() with base 10'')
         | Some n \<Rightarrow> Inr n)"

section \<open>services/autotune_service.py\<close>

text \<open>
  The constructor call \<open>BasalScheduleEntry(time=.., value=.., timeAsSeconds=..)\<close>
  validates its fields: \<open>value\<close> and \<open>timeAsSeconds\<close> are declared \<open>ge=0\<close>. The
  arguments already have the declared types here.
\<close>

definition new_BasalScheduleEntry :: "string \<Rightarrow> float \<Rightarrow> int \<Rightarrow> error + ScheduleEntry" where
  "new_BasalScheduleEntry t v s =
     (let bad = (if v < 0 then [''value''] else []) @ (if s < 0 then [''timeAsSeconds''] else [])
      in if bad = [] then Inr \<lparr>time = t, value = v, timeAsSeconds = s\<rparr>
         else Inl (ValidationError bad))"

text \<open>
  The body of the loop over \<open>result.basalprofile\<close>, up to the construction of
  \<open>ns_basal\<close> (lines 125 to 138), in the order in which the source evaluates it.
\<close>

definition convert_basal :: "AutotuneBasalEntry \<Rightarrow> error + ScheduleEntry" where
  "convert_basal basal_entry =
     (let time_parts = split CHR '':'' (start basal_entry) in
      case getitem time_parts 0 of Inl e \<Rightarrow> Inl e | Inr p0 \<Rightarrow>
     (case getitem time_parts 1 of Inl e \<Rightarrow> Inl e | Inr p1 \<Rightarrow>
     (let time_str = p0 @ '':'' @ p1 in
      case py_int p0 of Inl e \<Rightarrow> Inl e | Inr hours \<Rightarrow>
     (case py_int p1 of Inl e \<Rightarrow> Inl e | Inr minutes' \<Rightarrow>
     (let time_as_seconds = hours * 3600 + minutes' * 60
      in new_BasalScheduleEntry time_str (rate basal_entry) time_as_seconds)))))"

text \<open>
  The loop itself: each new entry is allocated and appended to the list that
  \<open>updated_profile.basal\<close> refers to at that moment. An exception leaves the loop
  with the store as it is then.
\<close>

fun basal_loop :: "heap \<Rightarrow> addr \<Rightarrow> AutotuneBasalEntry list \<Rightarrow> (error + unit) \<times> heap" where
  "basal_loop h up [] = (Inr (), h)"
| "basal_loop h up (basal_entry # rest) =
     (case convert_basal basal_entry of
        Inl e \<Rightarrow> (Inl e, h)
      | Inr ns_basal \<Rightarrow>
          (let (a, h1) = alloc h (Entry BasalScheduleEntry ns_basal);
               h2 = list_append h1 (basal (attrs (h1 ! up))) a
           in basal_loop h2 up rest))"

text \<open>Attribute assignments on the profile object.\<close>

definition set_basal :: "heap \<Rightarrow> addr \<Rightarrow> addr \<Rightarrow> heap" where
  "set_basal h p l = h[p := Profile ((attrs (h ! p))\<lparr>basal := l\<rparr>)]"

definition set_dia :: "heap \<Rightarrow> addr \<Rightarrow> float \<Rightarrow> heap" where
  "set_dia h p d = h[p := Profile ((attrs (h ! p))\<lparr>ProfileStore.dia := d\<rparr>)]"

text \<open>Truth value of a \<open>float | None\<close>: \<open>None\<close> and \<open>0.0\<close> are false.\<close>

fun truthy :: "float option \<Rightarrow> bool" where
  "truthy None = False"
| "truthy (Some d) = (d \<noteq> 0)"

text \<open>
  \<open>AutotuneService.apply_recommendations\<close>. The result is the exception raised or the
  address of the new profile, together with the store after the call.
\<close>

definition apply_recommendations ::
  "heap \<Rightarrow> addr \<Rightarrow> AutotuneRecommendations \<Rightarrow> (error + addr) \<times> heap" where
  "apply_recommendations h profile recommendations =
     (let (updated_profile, h1) = model_copy_deep h profile;
          res = result recommendations;
          h2 = foldl (\<lambda>h entry. set_value h entry (carb_ratio res)) h1
                 (items (h1 ! carbratio (attrs (h1 ! updated_profile))));
          h3 = foldl (\<lambda>h entry. set_value h entry (AutotuneResult.sens res)) h2
                 (items (h2 ! ProfileStore.sens (attrs (h2 ! updated_profile))));
          (r, h4) =
            (if basalprofile res \<noteq> [] then
               (let (l, h') = alloc h3 (ListObj [])
                in basal_loop (set_basal h' updated_profile l) updated_profile (basalprofile res))
             else (Inr (), h3))
      in case r of
           Inl e \<Rightarrow> (Inl e, h4)
         | Inr _ \<Rightarrow>
             (let h5 = (if truthy (AutotuneResult.dia res)
                        then set_dia h4 updated_profile (the (AutotuneResult.dia res))
                        else h4)
              in (Inr updated_profile, h5)))"

section \<open>Raw documents\<close>

text \<open>
  What \<open>response.json()\<close> and \<open>json.loads\<close> return, and what is passed on as
  \<open>dict[str, Any]\<close>. A dictionary is an association list read with \<open>map_of\<close>.
\<close>

datatype json =
    JNull
  | JBool bool
  | JInt int
  | JFloat float
  | JStr string
  | JList "json list"
  | JDict "(string \<times> json) list"

text \<open>Truth value of such an object: \<open>None\<close>, \<open>False\<close>, zero and the empty containers are false.\<close>

fun json_truthy :: "json \<Rightarrow> bool" where
  "json_truthy JNull = False"
| "json_truthy (JBool b) = b"
| "json_truthy (JInt n) = (n \<noteq> 0)"
| "json_truthy (JFloat x) = (x \<noteq> 0)"
| "json_truthy (JStr s) = (s \<noteq> [])"
| "json_truthy (JList xs) = (xs \<noteq> [])"
| "json_truthy (JDict d) = (d \<noteq> [])"

section \<open>Validation by the model classes\<close>

text \<open>
  Constructing a model class validates the keyword arguments against the declared
  fields. Which raw values the validation library converts to \<open>int\<close>, \<open>float\<close> and
  \<open>str\<close> is the library's conversion table, not part of this repository: it is a
  parameter of every validator. \<open>strict\<close> is the table that converts nothing, except
  that an \<open>int\<close> is accepted where a \<open>float\<close> is declared.
\<close>

record conversions =
  to_int :: "json \<Rightarrow> int option"
  to_float :: "json \<Rightarrow> float option"
  to_str :: "json \<Rightarrow> string option"

definition strict :: conversions where
  "strict =
     \<lparr>to_int = (\<lambda>v. case v of JInt n \<Rightarrow> Some n | _ \<Rightarrow> None),
      to_float = (\<lambda>v. case v of JFloat x \<Rightarrow> Some x | JInt n \<Rightarrow> Some (of_int n) | _ \<Rightarrow> None),
      to_str = (\<lambda>v. case v of JStr s \<Rightarrow> Some s | _ \<Rightarrow> None)\<rparr>"

text \<open>
  A field declared \<open>Field(...)\<close> is required: the key must be there and its value must
  convert. A field declared \<open>T | None = Field(None)\<close> may be missing or \<open>None\<close>.
  The outer \<open>None\<close> of the result stands for a validation error on the field.
\<close>

definition required :: "(json \<Rightarrow> 'a option) \<Rightarrow> (string \<times> json) list \<Rightarrow> string \<Rightarrow> 'a option" where
  "required conv d k = (case map_of d k of None \<Rightarrow> None | Some v \<Rightarrow> conv v)"

definition optional ::
  "(json \<Rightarrow> 'a option) \<Rightarrow> (string \<times> json) list \<Rightarrow> string \<Rightarrow> 'a option option" where
  "optional conv d k =
     (case map_of d k of
        None \<Rightarrow> Some None
      | Some JNull \<Rightarrow> Some None
      | Some v \<Rightarrow> map_option Some (conv v))"

definition constrained :: "('a \<Rightarrow> bool) \<Rightarrow> 'a option \<Rightarrow> 'a option" where
  "constrained ok x = (case x of None \<Rightarrow> None | Some v \<Rightarrow> if ok v then Some v else None)"

definition constrained_opt :: "('a \<Rightarrow> bool) \<Rightarrow> 'a option option \<Rightarrow> 'a option option" where
  "constrained_opt ok x =
     (case x of
        None \<Rightarrow> None
      | Some None \<Rightarrow> Some None
      | Some (Some v) \<Rightarrow> if ok v then Some (Some v) else None)"

text \<open>The names of the fields that failed, in the order of declaration.\<close>

definition failed :: "(string \<times> bool) list \<Rightarrow> string list" where
  "failed checks = map fst (filter (\<lambda>(name, ok). \<not> ok) checks)"

record NightscoutEntry =
  sgv :: int
  date :: int
  dateString :: string
  type' :: string
  direction :: "string option"
  device :: "string option"

record NightscoutTreatment =
  eventType :: string
  created_at :: string
  timestamp :: "string option"
  insulin :: "float option"
  carbs :: "float option"
  glucose :: "int option"
  glucoseType :: "string option"
  "notes" :: "string option"
  enteredBy :: "string option"

text \<open>
  \<open>NightscoutEntry(**entry_data)\<close>. Unpacking with \<open>**\<close> raises \<open>TypeError\<close> unless
  \<open>entry_data\<close> is a mapping. The attribute \<open>_id\<close> of the classes starts with an
  underscore, so the library does not treat it as a field; keys that are not fields are
  ignored.
\<close>

definition new_NightscoutEntry :: "conversions \<Rightarrow> json \<Rightarrow> error + NightscoutEntry" where
  "new_NightscoutEntry cv entry_data =
     (case entry_data of
        JDict d \<Rightarrow>
          (let f_sgv = constrained (\<lambda>n. 20 \<le> n \<and> n \<le> 600) (required (to_int cv) d ''sgv'');
               f_date = required (to_int cv) d ''date'';
               f_dateString = required (to_str cv) d ''dateString'';
               f_type = required (to_str cv) d ''type'';
               f_direction = optional (to_str cv) d ''direction'';
               f_device = optional (to_str cv) d ''device'';
               bad = failed [(''sgv'', f_sgv \<noteq> None), (''date'', f_date \<noteq> None),
                             (''dateString'', f_dateString \<noteq> None), (''type'', f_type \<noteq> None),
                             (''direction'', f_direction \<noteq> None), (''device'', f_device \<noteq> None)]
           in if bad = []
              then Inr \<lparr>sgv = the f_sgv, date = the f_date, dateString = the f_dateString,
                        type' = the f_type, direction = the f_direction, device = the f_device\<rparr>
              else Inl (ValidationError bad))
      | _ \<Rightarrow> Inl (TypeError ''argument after ** must be a mapping''))"

definition new_NightscoutTreatment :: "conversions \<Rightarrow> json \<Rightarrow> error + NightscoutTreatment" where
  "new_NightscoutTreatment cv treatment_data =
     (case treatment_data of
        JDict d \<Rightarrow>
          (let f_eventType = required (to_str cv) d ''eventType'';
               f_created_at = required (to_str cv) d ''created_at'';
               f_timestamp = optional (to_str cv) d ''timestamp'';
               f_insulin = constrained_opt (\<lambda>x. 0 \<le> x) (optional (to_float cv) d ''insulin'');
               f_carbs = constrained_opt (\<lambda>x. 0 \<le> x) (optional (to_float cv) d ''carbs'');
               f_glucose = optional (to_int cv) d ''glucose'';
               f_glucoseType = optional (to_str cv) d ''glucoseType'';
               f_notes = optional (to_str cv) d ''notes'';
               f_enteredBy = optional (to_str cv) d ''enteredBy'';
               bad = failed [(''eventType'', f_eventType \<noteq> None),
                             (''created_at'', f_created_at \<noteq> None),
                             (''timestamp'', f_timestamp \<noteq> None),
                             (''insulin'', f_insulin \<noteq> None), (''carbs'', f_carbs \<noteq> None),
                             (''glucose'', f_glucose \<noteq> None),
                             (''glucoseType'', f_glucoseType \<noteq> None),
                             (''notes'', f_notes \<noteq> None), (''enteredBy'', f_enteredBy \<noteq> None)]
           in if bad = []
              then Inr \<lparr>eventType = the f_eventType, created_at = the f_created_at,
                        timestamp = the f_timestamp, insulin = the f_insulin,
                        carbs = the f_carbs, glucose = the f_glucose,
                        glucoseType = the f_glucoseType, notes = the f_notes,
                        enteredBy = the f_enteredBy\<rparr>
              else Inl (ValidationError bad))
      | _ \<Rightarrow> Inl (TypeError ''argument after ** must be a mapping''))"

record HistoricalData =
  entries :: "NightscoutEntry list"
  treatments :: "NightscoutTreatment list"
  start_date :: int
  end_date :: int

section \<open>services/nightscout_service.py: \<open>get_historical_data\<close>\<close>

text \<open>
  A \<open>datetime\<close> is the number of microseconds since 0001-01-01T00:00:00, up to
  9999-12-31T23:59:59.999999. \<open>timedelta(days=n)\<close> raises \<open>OverflowError\<close> beyond
  999999999 days either way, and so does a subtraction that leaves the range.
\<close>

definition datetime_max :: int where
  "datetime_max = 3652059 * 86400000000 - 1"

definition timedelta_days :: "int \<Rightarrow> error + int" where
  "timedelta_days n =
     (if - 999999999 \<le> n \<and> n \<le> 999999999 then Inr (n * 86400000000) else Inl OverflowError)"

definition datetime_sub :: "int \<Rightarrow> int \<Rightarrow> error + int" where
  "datetime_sub t delta =
     (if 0 \<le> t - delta \<and> t - delta \<le> datetime_max then Inr (t - delta) else Inl OverflowError)"

text \<open>
  The warnings written to the logger, oldest first. The text of the exception that the
  source appends to the message is left out.
\<close>

datatype log_record = Warning string

text \<open>
  The two validation loops. The \<open>try\<close> block catches every \<open>Exception\<close>, so a record
  that does not validate costs one warning and the loop goes on.
\<close>

fun entries_loop ::
  "conversions \<Rightarrow> json list \<Rightarrow> NightscoutEntry list \<Rightarrow> log_record list
   \<Rightarrow> NightscoutEntry list \<times> log_record list" where
  "entries_loop cv [] entries' warnings = (entries', warnings)"
| "entries_loop cv (entry_data # rest) entries' warnings =
     (case new_NightscoutEntry cv entry_data of
        Inr entry \<Rightarrow> entries_loop cv rest (entries' @ [entry]) warnings
      | Inl e \<Rightarrow> entries_loop cv rest entries' (warnings @ [Warning ''Skipping invalid entry'']))"

fun treatments_loop ::
  "conversions \<Rightarrow> json list \<Rightarrow> NightscoutTreatment list \<Rightarrow> log_record list
   \<Rightarrow> NightscoutTreatment list \<times> log_record list" where
  "treatments_loop cv [] treatments' warnings = (treatments', warnings)"
| "treatments_loop cv (treatment_data # rest) treatments' warnings =
     (case new_NightscoutTreatment cv treatment_data of
        Inr treatment \<Rightarrow> treatments_loop cv rest (treatments' @ [treatment]) warnings
      | Inl e \<Rightarrow> treatments_loop cv rest treatments' (warnings @ [Warning ''Skipping invalid treatment'']))"

text \<open>
  \<open>NightscoutService.get_historical_data\<close>. \<open>now\<close> is what \<open>datetime.now()\<close> returns
  and \<open>fetched\<close> is the outcome of \<open>self.client.get_historical_data(days)\<close>: the
  exception of the transport, or the two raw lists.
\<close>

definition get_historical_data ::
  "conversions \<Rightarrow> int \<Rightarrow> error + json list \<times> json list \<Rightarrow> int
   \<Rightarrow> (error + HistoricalData) \<times> log_record list" where
  "get_historical_data cv now fetched days =
     (let end_date' = now in
      case timedelta_days days of Inl e \<Rightarrow> (Inl e, []) | Inr delta \<Rightarrow>
     (case datetime_sub end_date' delta of Inl e \<Rightarrow> (Inl e, []) | Inr start_date' \<Rightarrow>
     (case fetched of Inl e \<Rightarrow> (Inl e, []) | Inr (entries_raw, treatments_raw) \<Rightarrow>
     (let (entries', log1) = entries_loop cv entries_raw [] [];
          (treatments', log2) = treatments_loop cv treatments_raw [] log1
      in (Inr \<lparr>entries = entries', treatments = treatments',
               start_date = start_date', end_date = end_date'\<rparr>, log2)))))"

section \<open>Validation of a profile document\<close>

text \<open>
  A nested model is validated from a dictionary; a list field from a list, element by
  element. \<open>None\<close> is a validation error somewhere inside.
\<close>

definition new_ScheduleEntry :: "conversions \<Rightarrow> (float \<Rightarrow> bool) \<Rightarrow> json \<Rightarrow> ScheduleEntry option" where
  "new_ScheduleEntry cv ok v =
     (case v of
        JDict d \<Rightarrow>
          (let f_time = required (to_str cv) d ''time'';
               f_value = constrained ok (required (to_float cv) d ''value'');
               f_seconds = constrained (\<lambda>n. 0 \<le> n) (required (to_int cv) d ''timeAsSeconds'')
           in if f_time \<noteq> None \<and> f_value \<noteq> None \<and> f_seconds \<noteq> None
              then Some \<lparr>time = the f_time, value = the f_value, timeAsSeconds = the f_seconds\<rparr>
              else None)
      | _ \<Rightarrow> None)"

definition new_TargetEntry :: "conversions \<Rightarrow> json \<Rightarrow> TargetEntry option" where
  "new_TargetEntry cv v =
     (case v of
        JDict d \<Rightarrow>
          (let f_time = required (to_str cv) d ''time'';
               f_value = constrained (\<lambda>x. 0 < x) (required (to_float cv) d ''value'');
               f_low = constrained (\<lambda>x. 0 < x) (required (to_float cv) d ''low'');
               f_high = constrained (\<lambda>x. 0 < x) (required (to_float cv) d ''high'');
               f_seconds = constrained (\<lambda>n. 0 \<le> n) (required (to_int cv) d ''timeAsSeconds'')
           in if f_time \<noteq> None \<and> f_value \<noteq> None \<and> f_low \<noteq> None \<and> f_high \<noteq> None
                 \<and> f_seconds \<noteq> None
              then Some \<lparr>time = the f_time, value = the f_value, timeAsSeconds = the f_seconds,
                         low = the f_low, high = the f_high\<rparr>
              else None)
      | _ \<Rightarrow> None)"

definition list_of :: "(json \<Rightarrow> 'a option) \<Rightarrow> json \<Rightarrow> 'a list option" where
  "list_of elem v = (case v of JList xs \<Rightarrow> those (map elem xs) | _ \<Rightarrow> None)"

definition new_ProfileStore :: "conversions \<Rightarrow> json \<Rightarrow> ProfileValue option" where
  "new_ProfileStore cv v =
     (case v of
        JDict d \<Rightarrow>
          (let f_dia = constrained (\<lambda>x. 0 < x) (required (to_float cv) d ''dia'');
               f_carbratio = required (list_of (new_ScheduleEntry cv (\<lambda>x. 0 < x))) d ''carbratio'';
               f_sens = required (list_of (new_ScheduleEntry cv (\<lambda>x. 0 < x))) d ''sens'';
               f_basal = required (list_of (new_ScheduleEntry cv (\<lambda>x. 0 \<le> x))) d ''basal'';
               f_target_low = required (list_of (new_TargetEntry cv)) d ''target_low'';
               f_target_high = required (list_of (new_TargetEntry cv)) d ''target_high'';
               f_timezone = required (to_str cv) d ''timezone'';
               f_units = required (to_str cv) d ''units''
           in if f_dia \<noteq> None \<and> f_carbratio \<noteq> None \<and> f_sens \<noteq> None \<and> f_basal \<noteq> None
                 \<and> f_target_low \<noteq> None \<and> f_target_high \<noteq> None \<and> f_timezone \<noteq> None
                 \<and> f_units \<noteq> None
              then Some \<lparr>ProfileStore.dia = the f_dia, carbratio = the f_carbratio,
                         ProfileStore.sens = the f_sens, basal = the f_basal,
                         target_low = the f_target_low, target_high = the f_target_high,
                         timezone = the f_timezone, ProfileStore.units = the f_units\<rparr>
              else None)
      | _ \<Rightarrow> None)"

record NightscoutProfile =
  defaultProfile :: string
  store :: "(string \<times> ProfileValue) list"
  startDate :: string
  mills :: int
  units :: string
  created_at :: string

text \<open>\<open>dict[str, ProfileStore]\<close>: every value of the dictionary is validated.\<close>

definition dict_of :: "(json \<Rightarrow> 'a option) \<Rightarrow> json \<Rightarrow> (string \<times> 'a) list option" where
  "dict_of elem v =
     (case v of
        JDict d \<Rightarrow> those (map (\<lambda>(k, x). map_option (Pair k) (elem x)) d)
      | _ \<Rightarrow> None)"

definition new_NightscoutProfile :: "conversions \<Rightarrow> json \<Rightarrow> error + NightscoutProfile" where
  "new_NightscoutProfile cv profile_doc =
     (case profile_doc of
        JDict d \<Rightarrow>
          (let f_defaultProfile = required (to_str cv) d ''defaultProfile'';
               f_store = required (dict_of (new_ProfileStore cv)) d ''store'';
               f_startDate = required (to_str cv) d ''startDate'';
               f_mills = required (to_int cv) d ''mills'';
               f_units = required (to_str cv) d ''units'';
               f_created_at = required (to_str cv) d ''created_at'';
               bad = failed [(''defaultProfile'', f_defaultProfile \<noteq> None),
                             (''store'', f_store \<noteq> None),
                             (''startDate'', f_startDate \<noteq> None),
                             (''mills'', f_mills \<noteq> None),
                             (''units'', f_units \<noteq> None),
                             (''created_at'', f_created_at \<noteq> None)]
           in if bad = []
              then Inr \<lparr>defaultProfile = the f_defaultProfile, store = the f_store,
                        startDate = the f_startDate, mills = the f_mills,
                        NightscoutProfile.units = the f_units,
                        NightscoutProfile.created_at = the f_created_at\<rparr>
              else Inl (ValidationError bad))
      | _ \<Rightarrow> Inl (TypeError ''argument after ** must be a mapping''))"

text \<open>The property \<open>default_profile\<close>: \<open>self.store[self.defaultProfile]\<close>.\<close>

definition default_profile :: "NightscoutProfile \<Rightarrow> error + ProfileValue" where
  "default_profile profiles =
     (case map_of (store profiles) (defaultProfile profiles) of
        None \<Rightarrow> Inl (KeyError (defaultProfile profiles))
      | Some p \<Rightarrow> Inr p)"

section \<open>clients/nightscout_client.py\<close>

text \<open>
  The remote store, seen through the transport: what a GET of the profile document
  yields (an exception of the transport or of \<open>raise_for_status\<close>, or the decoded
  body), what a POST would answer, and the bodies posted so far. Only a POST changes it.
\<close>

record remote =
  get_response :: "error + json"
  post_response :: "error + json"
  posted :: "json list"

definition session_post :: "remote \<Rightarrow> json \<Rightarrow> (error + json) \<times> remote" where
  "session_post rem body = (post_response rem, rem\<lparr>posted := posted rem @ [body]\<rparr>)"

text \<open>\<open>NightscoutClient._get_profiles\<close>.\<close>

definition get_profiles :: "conversions \<Rightarrow> remote \<Rightarrow> error + NightscoutProfile" where
  "get_profiles cv rem =
     (case get_response rem of
        Inl e \<Rightarrow> Inl e
      | Inr data \<Rightarrow>
          if \<not> json_truthy data then Inl (ValueError ''No profiles found in Nightscout'')
          else (let profile_doc = (case data of JList xs \<Rightarrow> xs ! 0 | _ \<Rightarrow> data)
                in new_NightscoutProfile cv profile_doc))"

text \<open>
  The object bound to \<open>current_profile\<close> in \<open>update_profile\<close>. The source obtains it
  from the property \<open>default_profile\<close>, so it is a model instance; the statements that
  follow treat it as a dictionary. Both kinds of object are modelled, with what the
  operators \<open>in\<close>, \<open>obj[key]\<close> and \<open>obj[key] = v\<close> do on each:
  iterating a model instance yields pairs of a field name and a value, none of which is
  equal to a string, and a model instance supports neither subscription nor item
  assignment.
\<close>

datatype pyobj = Instance ProfileValue | DictObj "(string \<times> json) list"

fun py_contains :: "string \<Rightarrow> pyobj \<Rightarrow> bool" where
  "py_contains key (Instance p) = False"
| "py_contains key (DictObj d) = (map_of d key \<noteq> None)"

fun py_getitem :: "pyobj \<Rightarrow> string \<Rightarrow> error + json" where
  "py_getitem (Instance p) key = Inl (TypeError ''object is not subscriptable'')"
| "py_getitem (DictObj d) key =
     (case map_of d key of None \<Rightarrow> Inl (KeyError key) | Some v \<Rightarrow> Inr v)"

fun py_setitem :: "pyobj \<Rightarrow> string \<Rightarrow> json \<Rightarrow> error + pyobj" where
  "py_setitem (Instance p) key v = Inl (TypeError ''object does not support item assignment'')"
| "py_setitem (DictObj d) key v = Inr (DictObj (AList.update key v d))"

text \<open>What \<open>requests\<close> does with the \<open>json=\<close> argument.\<close>

fun to_body :: "pyobj \<Rightarrow> error + json" where
  "to_body (Instance p) = Inl (TypeError ''Object is not JSON serializable'')"
| "to_body (DictObj d) = Inr (JDict d)"

text \<open>
  Name resolution inside \<open>update_profile\<close>. The data the function can name are its
  parameters; the module's globals are its imports, its logger and the class. A name
  that is bound nowhere raises \<open>NameError\<close> when it is evaluated.
\<close>

definition load_name :: "(string \<times> json) list \<Rightarrow> string \<Rightarrow> error + json" where
  "load_name env x = (case map_of env x of None \<Rightarrow> Inl (NameError x) | Some v \<Rightarrow> Inr v)"

text \<open>The attributes of a \<open>NightscoutClient\<close>: fields, properties and methods.\<close>

definition client_attributes :: "string list" where
  "client_attributes =
     [''url'', ''api_secret'', ''timeout'', ''_session'', ''_auth_headers'', ''_get_profiles'',
      ''get_profile'', ''get_entries'', ''get_treatments'', ''get_historical_data'',
      ''update_profile'']"

definition getattr_client :: "string \<Rightarrow> error + unit" where
  "getattr_client x = (if x \<in> set client_attributes then Inr () else Inl (AttributeError x))"

text \<open>Lines 253 and 254: \<open>if "store" not in current_profile: current_profile["store"] = {}\<close>.\<close>

definition ensure_store :: "pyobj \<Rightarrow> error + pyobj" where
  "ensure_store current_profile =
     (if \<not> py_contains ''store'' current_profile
      then py_setitem current_profile ''store'' (JDict [])
      else Inr current_profile)"

text \<open>
  Line 256: \<open>current_profile["store"][target_profile] = profile_data\<close>. The right-hand
  side is evaluated first, then \<open>current_profile["store"]\<close>, then the subscript
  \<open>target_profile\<close>, and then the item is assigned.
\<close>

definition store_profile_data ::
  "(string \<times> json) list \<Rightarrow> pyobj \<Rightarrow> error + pyobj" where
  "store_profile_data env current_profile =
     (case load_name env ''profile_data'' of Inl e \<Rightarrow> Inl e | Inr profile_data \<Rightarrow>
     (case py_getitem current_profile ''store'' of Inl e \<Rightarrow> Inl e | Inr inner \<Rightarrow>
     (case load_name env ''target_profile'' of Inl e \<Rightarrow> Inl e | Inr target_profile \<Rightarrow>
     (case (inner, target_profile) of
        (JDict s, JStr k) \<Rightarrow>
          py_setitem current_profile ''store'' (JDict (AList.update k profile_data s))
      | _ \<Rightarrow> Inl (TypeError ''unsupported item assignment'')))))"

text \<open>
  \<open>NightscoutClient.update_profile\<close>. \<open>now_ms\<close> is
  \<open>int(datetime.now().timestamp() * 1000)\<close>.
\<close>

definition update_profile ::
  "conversions \<Rightarrow> remote \<Rightarrow> int \<Rightarrow> json \<Rightarrow> string option \<Rightarrow> (error + json) \<times> remote" where
  "update_profile cv rem now_ms profile_data profile_name' =
     (let env = [(''profile_data'', profile_data),
                 (''profile_name'', case profile_name' of None \<Rightarrow> JNull | Some n \<Rightarrow> JStr n)] in
      case get_profiles cv rem of Inl e \<Rightarrow> (Inl e, rem) | Inr profiles \<Rightarrow>
     (case default_profile profiles of Inl e \<Rightarrow> (Inl e, rem) | Inr p \<Rightarrow>
     (case ensure_store (Instance p) of Inl e \<Rightarrow> (Inl e, rem) | Inr cp1 \<Rightarrow>
     (case store_profile_data env cp1 of Inl e \<Rightarrow> (Inl e, rem) | Inr cp2 \<Rightarrow>
     (case py_setitem cp2 ''mills'' (JInt now_ms) of Inl e \<Rightarrow> (Inl e, rem) | Inr cp3 \<Rightarrow>
     (case load_name env ''target_profile'' of Inl e \<Rightarrow> (Inl e, rem) | Inr shown \<Rightarrow>
     (case getattr_client ''session'' of Inl e \<Rightarrow> (Inl e, rem) | Inr session \<Rightarrow>
     (case to_body cp3 of Inl e \<Rightarrow> (Inl e, rem) | Inr body \<Rightarrow>
        session_post rem body))))))))"

section \<open>services/nightscout_service.py: \<open>sync_profile\<close>\<close>

text \<open>\<open>model_dump()\<close> of a \<open>ProfileStore\<close>.\<close>

definition dump_entry :: "ScheduleEntry \<Rightarrow> json" where
  "dump_entry e =
     JDict [(''time'', JStr (time e)), (''value'', JFloat (value e)),
            (''timeAsSeconds'', JInt (timeAsSeconds e))]"

definition dump_target :: "TargetEntry \<Rightarrow> json" where
  "dump_target e =
     JDict [(''time'', JStr (time e)), (''value'', JFloat (value e)), (''low'', JFloat (low e)),
            (''high'', JFloat (high e)), (''timeAsSeconds'', JInt (timeAsSeconds e))]"

definition model_dump :: "ProfileValue \<Rightarrow> json" where
  "model_dump p =
     JDict [(''dia'', JFloat (ProfileStore.dia p)),
            (''carbratio'', JList (map dump_entry (carbratio p))),
            (''sens'', JList (map dump_entry (ProfileStore.sens p))),
            (''basal'', JList (map dump_entry (basal p))),
            (''target_low'', JList (map dump_target (target_low p))),
            (''target_high'', JList (map dump_target (target_high p))),
            (''timezone'', JStr (timezone p)),
            (''units'', JStr (ProfileStore.units p))]"

definition sync_profile ::
  "conversions \<Rightarrow> remote \<Rightarrow> int \<Rightarrow> ProfileValue \<Rightarrow> string option \<Rightarrow> (error + unit) \<times> remote" where
  "sync_profile cv rem now_ms profile_store profile_name' =
     (let profile_data = model_dump profile_store
      in case update_profile cv rem now_ms profile_data profile_name' of
           (Inl e, rem') \<Rightarrow> (Inl e, rem')
         | (Inr r, rem') \<Rightarrow> (Inr (), rem'))"

section \<open>clients/autotune_client.py\<close>

text \<open>\<open>str(n)\<close> for an \<open>int\<close>.\<close>

fun decimal :: "nat \<Rightarrow> string" where
  "decimal n =
     (if n < 10 then [char_of (48 + n)] else decimal (n div 10) @ [char_of (48 + n mod 10)])"

definition str_int :: "int \<Rightarrow> string" where
  "str_int i = (if i < 0 then CHR ''-'' # decimal (nat (- i)) else decimal (nat i))"

text \<open>
  The working directory: a path leads to a file with its text or to a directory. The
  external process is a function from its command line and the directory as the client
  prepared it to how the process ended and the directory as the process left it.
\<close>

datatype node = File string | Directory

type_synonym files = "string \<rightharpoonup> node"

datatype ended =
    Completed int string string
  | TimedOut
  | NotStarted string

type_synonym process = "string list \<Rightarrow> files \<Rightarrow> ended \<times> files"

text \<open>
  The files written before the process starts and its command line. \<open>dumps\<close> is
  \<open>json.dumps(_, indent=2)\<close> and \<open>tmpdir\<close> the name of the temporary directory.
\<close>

definition autotune_inputs ::
  "(json \<Rightarrow> string) \<Rightarrow> string \<Rightarrow> json \<Rightarrow> json list \<Rightarrow> json list \<Rightarrow> files" where
  "autotune_inputs dumps tmpdir profile_data entries' treatments' =
     [tmpdir @ ''/autotune'' \<mapsto> Directory,
      tmpdir @ ''/profile.json'' \<mapsto> File (dumps profile_data),
      tmpdir @ ''/entries.json'' \<mapsto> File (dumps (JList entries')),
      tmpdir @ ''/treatments.json'' \<mapsto> File (dumps (JList treatments'))]"

definition autotune_command :: "string \<Rightarrow> string \<Rightarrow> int \<Rightarrow> string list" where
  "autotune_command autotune_path tmpdir days =
     [autotune_path, ''--dir'', tmpdir,
      ''--ns-entries'', tmpdir @ ''/entries.json'',
      ''--ns-treatments'', tmpdir @ ''/treatments.json'',
      ''--profile'', tmpdir @ ''/profile.json'',
      ''--days'', str_int days]"

definition no_recommendations :: error where
  "no_recommendations =
     ValueError ''Autotune did not produce recommendations file. Check that enough valid data was provided.''"

text \<open>
  \<open>AutotuneClient.run_autotune\<close>. \<open>loads\<close> is \<open>json.loads\<close>, which returns the
  document or the message of a \<open>JSONDecodeError\<close>. With \<open>check=True\<close> an exit status
  other than 0 raises \<open>CalledProcessError\<close>; the time-out is turned into a
  \<open>ValueError\<close>; an executable that cannot be started raises an \<open>OSError\<close>, which
  is not caught.
\<close>

definition run_autotune ::
  "(json \<Rightarrow> string) \<Rightarrow> (string \<Rightarrow> string + json) \<Rightarrow> process \<Rightarrow> string \<Rightarrow> string
   \<Rightarrow> json \<Rightarrow> json list \<Rightarrow> json list \<Rightarrow> int \<Rightarrow> error + json" where
  "run_autotune dumps loads proc autotune_path tmpdir profile_data entries' treatments' days =
     (case proc (autotune_command autotune_path tmpdir days)
             (autotune_inputs dumps tmpdir profile_data entries' treatments') of
        (TimedOut, after) \<Rightarrow> Inl (ValueError ''Autotune analysis timed out'')
      | (NotStarted msg, after) \<Rightarrow> Inl (OSError msg)
      | (Completed returncode out err, after) \<Rightarrow>
          if returncode \<noteq> 0 then Inl (CalledProcessError returncode out err)
          else (case after (tmpdir @ ''/autotune/autotune_recommendations.json'') of
                  None \<Rightarrow> Inl no_recommendations
                | Some Directory \<Rightarrow> Inl (OSError ''Is a directory'')
                | Some (File text) \<Rightarrow>
                    (case loads text of
                       Inl msg \<Rightarrow> Inl (JSONDecodeError msg)
                     | Inr recommendations \<Rightarrow> Inr recommendations)))"

section \<open>Notions used in the statements and their proofs\<close>

text \<open>
  The invariant of the deep copy. \<open>h0\<close> is the store before the copy, \<open>h\<close> the store
  so far and \<open>m\<close> the memo: the store has only grown, and every object in the memo is an
  old one whose copy is a new one that reads back like it.
\<close>

definition same_leaf :: "heap \<Rightarrow> addr \<Rightarrow> heap \<Rightarrow> addr \<Rightarrow> bool" where
  "same_leaf h a h' a' \<longleftrightarrow>
     (\<forall>c. get_entry h' c a' = get_entry h c a) \<and> get_target h' a' = get_target h a"

definition memo_inv :: "heap \<Rightarrow> heap \<Rightarrow> memo \<Rightarrow> bool" where
  "memo_inv h0 h m \<longleftrightarrow>
     (\<exists>ext. h = h0 @ ext) \<and>
     (\<forall>a a'. m a = Some a' \<longrightarrow>
        a < length h0 \<and> length h0 \<le> a' \<and> a' < length h \<and> same_leaf h0 a h a')"

text \<open>Completed lists: the copy of a list holds the memo's images of its elements.\<close>

definition lists_inv :: "heap \<Rightarrow> heap \<Rightarrow> memo \<Rightarrow> bool" where
  "lists_inv h0 h m \<longleftrightarrow>
     (\<forall>l l' xs. m l = Some l' \<and> h0 ! l = ListObj xs \<longrightarrow>
        (\<exists>ys. h ! l' = ListObj ys \<and> map m xs = map Some ys))"

text \<open>An object without references to other objects.\<close>

definition leaf :: "obj \<Rightarrow> bool" where
  "leaf x \<longleftrightarrow> (case x of ListObj xs \<Rightarrow> False | _ \<Rightarrow> True)"

text \<open>
  Every object of the profile at \<open>p\<close> was allocated at or after address \<open>n\<close>.
\<close>

definition fresh :: "nat \<Rightarrow> heap \<Rightarrow> addr \<Rightarrow> bool" where
  "fresh n h p \<longleftrightarrow> (\<forall>a \<in> reachable h p. n \<le> a \<and> a < length h)"

text \<open>
  What the loop over the recommended basal schedule produces: the converted entries, or
  the exception of the first entry that does not convert.
\<close>

fun convert_all :: "AutotuneBasalEntry list \<Rightarrow> error + ScheduleEntry list" where
  "convert_all [] = Inr []"
| "convert_all (b # bs) =
     (case convert_basal b of
        Inl e \<Rightarrow> Inl e
      | Inr n \<Rightarrow> (case convert_all bs of Inl e \<Rightarrow> Inl e | Inr ns \<Rightarrow> Inr (n # ns)))"

text \<open>
  The value of the profile that \<open>apply_recommendations\<close> returns, for the original
  value \<open>P\<close>: the basal schedule is replaced only when the recommended one is not
  empty.
\<close>

definition new_basal :: "AutotuneResult \<Rightarrow> ScheduleEntry list \<Rightarrow> error + ScheduleEntry list" where
  "new_basal res old = (if basalprofile res = [] then Inr old else convert_all (basalprofile res))"

definition merged :: "ProfileValue \<Rightarrow> AutotuneResult \<Rightarrow> ScheduleEntry list \<Rightarrow> ProfileValue" where
  "merged P res ns =
     \<lparr>ProfileStore.dia = (if truthy (AutotuneResult.dia res) then the (AutotuneResult.dia res)
                          else ProfileStore.dia P),
      carbratio = map (\<lambda>e. e\<lparr>value := carb_ratio res\<rparr>) (carbratio P),
      ProfileStore.sens = map (\<lambda>e. e\<lparr>value := AutotuneResult.sens res\<rparr>) (ProfileStore.sens P),
      basal = ns,
      target_low = target_low P, target_high = target_high P,
      timezone = timezone P, ProfileStore.units = ProfileStore.units P\<rparr>"

text \<open>
  The format the model class documents for \<open>start\<close>, \<open>HH:MM:SS\<close>, and the basal entry
  the specification describes for such a start time: the time cut after \<open>HH:MM\<close>, the
  seconds since midnight computed from its hours and minutes, and the rate.
\<close>

fun hhmmss :: "string \<Rightarrow> bool" where
  "hhmmss [a, b, x, c, d, y, e, f] \<longleftrightarrow>
     isdigit a \<and> isdigit b \<and> x = CHR '':'' \<and> isdigit c \<and> isdigit d \<and> y = CHR '':''
     \<and> isdigit e \<and> isdigit f"
| "hhmmss _ \<longleftrightarrow> False"

definition two_digits :: "char \<Rightarrow> char \<Rightarrow> int" where
  "two_digits a b = 10 * digit a + digit b"

definition spec_basal_entry :: "AutotuneBasalEntry \<Rightarrow> ScheduleEntry" where
  "spec_basal_entry b =
     \<lparr>time = take 5 (start b), value = rate b,
      timeAsSeconds = two_digits (start b ! 0) (start b ! 1) * 3600
                      + two_digits (start b ! 3) (start b ! 4) * 60\<rparr>"

text \<open>
  The running example: a store holding one validated profile (two carb-ratio entries,
  one entry in every other schedule) at address 11, its value, and two recommendations,
  the second with an empty basal schedule.
\<close>

definition ex_store :: heap where
  "ex_store =
     [Entry CarbRatioEntry \<lparr>time = ''00:00'', value = 10, timeAsSeconds = 0\<rparr>,
      Entry CarbRatioEntry \<lparr>time = ''12:00'', value = 8, timeAsSeconds = 43200\<rparr>,
      ListObj [0, 1],
      Entry SensitivityEntry \<lparr>time = ''00:00'', value = 50, timeAsSeconds = 0\<rparr>,
      ListObj [3],
      Entry BasalScheduleEntry \<lparr>time = ''00:00'', value = 1, timeAsSeconds = 0\<rparr>,
      ListObj [5],
      Target \<lparr>time = ''00:00'', value = 100, timeAsSeconds = 0, low = 90, high = 110\<rparr>,
      ListObj [7],
      Target \<lparr>time = ''00:00'', value = 120, timeAsSeconds = 0, low = 110, high = 130\<rparr>,
      ListObj [9],
      Profile \<lparr>ProfileStore.dia = 5, carbratio = 2, ProfileStore.sens = 4, basal = 6,
               target_low = 8, target_high = 10, timezone = ''UTC'', ProfileStore.units = ''mg/dL''\<rparr>]"

definition ex_profile :: ProfileValue where
  "ex_profile =
     \<lparr>ProfileStore.dia = 5,
      carbratio = [\<lparr>time = ''00:00'', value = 10, timeAsSeconds = 0\<rparr>,
                   \<lparr>time = ''12:00'', value = 8, timeAsSeconds = 43200\<rparr>],
      ProfileStore.sens = [\<lparr>time = ''00:00'', value = 50, timeAsSeconds = 0\<rparr>],
      basal = [\<lparr>time = ''00:00'', value = 1, timeAsSeconds = 0\<rparr>],
      target_low = [\<lparr>time = ''00:00'', value = 100, timeAsSeconds = 0, low = 90, high = 110\<rparr>],
      target_high = [\<lparr>time = ''00:00'', value = 120, timeAsSeconds = 0, low = 110, high = 130\<rparr>],
      timezone = ''UTC'', ProfileStore.units = ''mg/dL''\<rparr>"

definition ex_rec :: "float option \<Rightarrow> AutotuneRecommendations" where
  "ex_rec d =
     \<lparr>result = \<lparr>basalprofile = [\<lparr>start = ''06:30:00'', minutes = 60, rate = 13 / 10\<rparr>],
                 carb_ratio = 12, AutotuneResult.sens = 55, AutotuneResult.dia = d\<rparr>,
      profile_name = ''Default'', analysis_date = ''2024-01-01T00:00:00'', days_analyzed = 7\<rparr>"

definition ex_rec_empty :: AutotuneRecommendations where
  "ex_rec_empty =
     \<lparr>result = \<lparr>basalprofile = [], carb_ratio = 12, AutotuneResult.sens = 55,
                 AutotuneResult.dia = None\<rparr>,
      profile_name = ''Default'', analysis_date = ''2024-01-01T00:00:00'', days_analyzed = 7\<rparr>"

text \<open>The records of a raw list that validate, in order, and the number of the others.\<close>

definition accepted :: "('r \<Rightarrow> error + 'a) \<Rightarrow> 'r list \<Rightarrow> 'a list" where
  "accepted validate raws =
     List.map_filter (\<lambda>raw. case validate raw of Inr x \<Rightarrow> Some x | Inl e \<Rightarrow> None) raws"

definition rejected :: "('r \<Rightarrow> error + 'a) \<Rightarrow> 'r list \<Rightarrow> nat" where
  "rejected validate raws = length (filter (\<lambda>raw. isl (validate raw)) raws)"

text \<open>The two raw entries of the service's test, and a value of \<open>datetime.now()\<close>.\<close>

definition ex_valid_entry :: json where
  "ex_valid_entry =
     JDict [(''_id'', JStr ''entry1''), (''sgv'', JInt 120), (''date'', JInt 1704067200000),
            (''dateString'', JStr ''2024-01-01T00:00:00Z''), (''type'', JStr ''sgv'')]"

definition ex_invalid_entry :: json where
  "ex_invalid_entry = JDict [(''invalid'', JStr ''data'')]"

definition ex_now :: int where
  "ex_now = 63839664000000000"

text \<open>
  The remote store of the client's test for a missing default: a document without
  \<open>defaultProfile\<close>.
\<close>

definition ex_remote_no_default :: remote where
  "ex_remote_no_default =
     \<lparr>get_response = Inr (JList [JDict [(''_id'', JStr ''test-id''), (''store'', JDict []),
                                       (''mills'', JInt 1234567890),
                                       (''created_at'', JStr ''2024-01-01T00:00:00Z'')]]),
      post_response = Inr (JDict [(''ok'', JBool True)]),
      posted = []\<rparr>"

text \<open>A process that exits with status 0 and writes nothing.\<close>

definition ex_silent_process :: process where
  "ex_silent_process cmd fs = (Completed 0 ''Completed'' '''', fs)"

section \<open>Properties\<close>

subsection \<open>Reading the store and copying it\<close>

lemma lookup_append_old: "a < length h \<Longrightarrow> lookup (h @ ext) a = lookup h a"
  by (simp add: lookup_def nth_append)

lemma get_entry_append_old: "a < length h \<Longrightarrow> get_entry (h @ ext) c a = get_entry h c a"
  by (simp add: get_entry_def lookup_append_old)

lemma get_target_append_old: "a < length h \<Longrightarrow> get_target (h @ ext) a = get_target h a"
  by (simp add: get_target_def lookup_append_old)

lemma same_leaf_copy:
  "a < length h0 \<Longrightarrow> same_leaf h0 a (h0 @ ext @ [h0 ! a]) (length h0 + length ext)"
  by (simp add: same_leaf_def get_entry_def get_target_def lookup_def nth_append)

lemma same_leaf_append:
  "same_leaf h0 a h a' \<Longrightarrow> a' < length h \<Longrightarrow> same_leaf h0 a (h @ ext) a'"
  by (simp add: same_leaf_def get_entry_append_old get_target_append_old)

lemma deepcopy_leaf_inv:
  assumes "memo_inv h0 h m" "a < length h0" "deepcopy_leaf h m a = (a', h', m')"
  shows "memo_inv h0 h' m' \<and> (\<exists>ext. h' = h @ ext) \<and> m \<subseteq>\<^sub>m m' \<and> m' a = Some a'
         \<and> dom m' \<subseteq> insert a (dom m)"
proof (cases "m a")
  case (Some b)
  with assms show ?thesis by (auto simp: deepcopy_leaf_def)
next
  case None
  from assms(1) obtain ext where h: "h = h0 @ ext" by (auto simp: memo_inv_def)
  from None assms(3) have eqs: "a' = length h" "h' = h @ [h ! a]" "m' = m(a \<mapsto> length h)"
    by (auto simp: deepcopy_leaf_def)
  have ha: "h ! a = h0 ! a" using h assms(2) by (simp add: nth_append)
  have "memo_inv h0 h' m'"
    unfolding memo_inv_def
  proof (rule conjI, goal_cases)
    case 1
    show ?case using eqs h by simp
  next
    case 2
    show ?case
    proof (intro allI impI)
    fix b b' assume "m' b = Some b'"
    then consider "b = a" "b' = length h" | "b \<noteq> a" "m b = Some b'"
      using eqs by (auto split: if_splits)
    then show "b < length h0 \<and> length h0 \<le> b' \<and> b' < length h' \<and> same_leaf h0 b h' b'"
    proof cases
      case 1
      then show ?thesis
        using assms(2) eqs h ha same_leaf_copy[of a h0 ext] by simp
    next
      case 2
      with assms(1) have "b < length h0 \<and> length h0 \<le> b' \<and> b' < length h \<and> same_leaf h0 b h b'"
        by (simp add: memo_inv_def)
      then show ?thesis using eqs by (simp add: same_leaf_append)
    qed
    qed
  qed
  moreover have "m \<subseteq>\<^sub>m m'" using None eqs by (auto simp: map_le_def)
  ultimately show ?thesis using eqs by auto
qed

lemma deepcopy_items_inv:
  assumes "memo_inv h0 h m" "\<forall>x \<in> set xs. x < length h0" "deepcopy_items h m xs = (ys, h', m')"
  shows "memo_inv h0 h' m' \<and> (\<exists>ext. h' = h @ ext) \<and> m \<subseteq>\<^sub>m m' \<and> map m' xs = map Some ys
         \<and> dom m' \<subseteq> dom m \<union> set xs"
  using assms
proof (induction xs arbitrary: h m ys h' m')
  case Nil
  then show ?case by simp
next
  case (Cons a as)
  obtain a' h1 m1 where leaf: "deepcopy_leaf h m a = (a', h1, m1)"
    by (metis prod_cases3)
  obtain as' h2 m2 where rest: "deepcopy_items h1 m1 as = (as', h2, m2)"
    by (metis prod_cases3)
  from Cons.prems(3) leaf rest have eqs: "ys = a' # as'" "h' = h2" "m' = m2"
    by simp_all
  from deepcopy_leaf_inv[OF Cons.prems(1) _ leaf] Cons.prems(2)
  have l: "memo_inv h0 h1 m1" "\<exists>ext. h1 = h @ ext" "m \<subseteq>\<^sub>m m1" "m1 a = Some a'"
      "dom m1 \<subseteq> insert a (dom m)"
    by simp_all
  from Cons.IH[OF l(1) _ rest] Cons.prems(2)
  have r: "memo_inv h0 h2 m2" "\<exists>ext. h2 = h1 @ ext" "m1 \<subseteq>\<^sub>m m2" "map m2 as = map Some as'"
      "dom m2 \<subseteq> dom m1 \<union> set as"
    by simp_all
  have "m2 a = Some a'" using l(4) r(3) by (metis domI map_le_def)
  moreover have "m \<subseteq>\<^sub>m m2" using l(3) r(3) by (rule map_le_trans)
  moreover have "\<exists>ext. h2 = h @ ext" using l(2) r(2) by auto
  moreover have "dom m2 \<subseteq> dom m \<union> set (a # as)" using l(5) r(5) by (simp add: subset_iff) blast
  ultimately show ?case using r(1) r(4) eqs by simp
qed

lemma those_map_Some: "those (map Some ys) = Some ys"
  by (induction ys) simp_all

lemma those_cong: "map f xs = map g ys \<Longrightarrow> those (map f xs) = those (map g ys)"
  by simp

lemma map_le_map: "m \<subseteq>\<^sub>m m' \<Longrightarrow> map m xs = map Some ys \<Longrightarrow> map m' xs = map Some ys"
proof (induction xs arbitrary: ys)
  case Nil
  then show ?case by simp
next
  case (Cons x xs)
  then obtain y ys' where ys: "ys = y # ys'" "m x = Some y" "map m xs = map Some ys'"
    by (cases ys) auto
  from Cons.prems(1) ys(2) have "m' x = Some y" by (metis domI map_le_def)
  with Cons.IH[OF Cons.prems(1) ys(3)] ys(1) show ?case by simp
qed

lemma deepcopy_list_inv:
  assumes inv: "memo_inv h0 h m" "lists_inv h0 h m"
    and l: "l < length h0" "h0 ! l = ListObj xs" "\<forall>x \<in> set xs. x < length h0 \<and> leaf (h0 ! x)"
    and run: "deepcopy_list h m l = (l', h', m')"
  shows "memo_inv h0 h' m' \<and> lists_inv h0 h' m' \<and> (\<exists>ext. h' = h @ ext) \<and> m \<subseteq>\<^sub>m m'
         \<and> m' l = Some l'"
proof (cases "m l")
  case (Some b)
  with run inv show ?thesis by (auto simp: deepcopy_list_def)
next
  case None
  from inv(1) obtain ext where h: "h = h0 @ ext" by (auto simp: memo_inv_def)
  have hl: "h ! l = ListObj xs" using h l(1,2) by (simp add: nth_append)
  define ha where "ha = h @ [ListObj []]"
  define ma where "ma = m(l \<mapsto> length h)"
  obtain ys h1 m1 where it: "deepcopy_items ha ma xs = (ys, h1, m1)"
    by (metis prod_cases3)
  from run None hl it have eqs: "l' = length h" "h' = h1[length h := ListObj ys]" "m' = m1"
    by (auto simp: deepcopy_list_def ha_def ma_def Let_def)
  have sl: "same_leaf h0 l ha (length h)"
    using l(1,2)
    by (simp add: same_leaf_def get_entry_def get_target_def lookup_def ha_def nth_append)
  have inv_a: "memo_inv h0 ha ma"
    unfolding memo_inv_def
  proof (rule conjI, goal_cases)
    case 1
    show ?case using h by (simp add: ha_def)
  next
    case 2
    show ?case
    proof (intro allI impI)
      fix b b' assume "ma b = Some b'"
      then consider "b = l" "b' = length h" | "b \<noteq> l" "m b = Some b'"
        by (auto simp: ma_def split: if_splits)
      then show "b < length h0 \<and> length h0 \<le> b' \<and> b' < length ha \<and> same_leaf h0 b ha b'"
      proof cases
        case 1
        then show ?thesis using l(1) h sl by (simp add: ha_def)
      next
        case 2
        with inv(1) have "b < length h0 \<and> length h0 \<le> b' \<and> b' < length h \<and> same_leaf h0 b h b'"
          by (simp add: memo_inv_def)
        then show ?thesis by (simp add: ha_def same_leaf_append)
      qed
    qed
  qed
  from deepcopy_items_inv[OF inv_a _ it] l(3)
  have r: "memo_inv h0 h1 m1" "\<exists>ext. h1 = ha @ ext" "ma \<subseteq>\<^sub>m m1" "map m1 xs = map Some ys"
      "dom m1 \<subseteq> dom ma \<union> set xs"
    by simp_all
  from r(2) obtain ext1 where h1: "h1 = h @ [ListObj []] @ ext1" by (auto simp: ha_def)
  have h': "h' = h @ [ListObj ys] @ ext1"
    using eqs(2) h1 by (simp add: list_update_append)
  have len: "length h' = length h1" using eqs by simp
  have m1l: "m1 l = Some (length h)" using r(3) by (metis domI fun_upd_same ma_def map_le_def)
  have mm1: "m \<subseteq>\<^sub>m m1"
  proof -
    have "m \<subseteq>\<^sub>m ma" using None by (auto simp: ma_def map_le_def)
    then show ?thesis using r(3) by (rule map_le_trans)
  qed
  have leaf_same: "get_entry h' c b = get_entry h1 c b" "get_target h' b = get_target h1 b" for c b
    using h1 h' by (auto simp: get_entry_def get_target_def lookup_def nth_append nth_Cons split: nat.splits)
  have inv': "memo_inv h0 h' m1"
    using r(1) h h' len unfolding memo_inv_def same_leaf_def leaf_same by auto
  have lists': "lists_inv h0 h' m1"
    unfolding lists_inv_def
  proof (intro allI impI, elim conjE)
    fix k k' zs assume k: "m1 k = Some k'" "h0 ! k = ListObj zs"
    show "\<exists>ys. h' ! k' = ListObj ys \<and> map m1 zs = map Some ys"
    proof (cases "k = l")
      case True
      then have "k' = length h" "zs = xs" using k m1l l(2) by simp_all
      then show ?thesis using h' r(4) by (simp add: nth_append)
    next
      case False
      have "k \<notin> set xs" using l(3) k(2) by (auto simp: leaf_def)
      then have "k \<in> dom m" using r(5) k(1) False by (auto simp: ma_def)
      then obtain k2 where k2: "m k = Some k2" by auto
      then have "k2 = k'" using mm1 k(1) by (metis domI map_le_def option.inject)
      with k2 k(2) have "m k = Some k' \<and> h0 ! k = ListObj zs" by simp
      with inv(2) obtain ys0 where ys0: "h ! k' = ListObj ys0" "map m zs = map Some ys0"
        unfolding lists_inv_def by blast
      have "k' < length h" using inv(1) k2 \<open>k2 = k'\<close> by (auto simp: memo_inv_def)
      then have "h' ! k' = ListObj ys0" using h' ys0(1) by (simp add: nth_append)
      moreover have "map m1 zs = map Some ys0" using mm1 ys0(2) by (rule map_le_map)
      ultimately show ?thesis by simp
    qed
  qed
  show ?thesis using inv' lists' h' mm1 m1l eqs by simp
qed

lemma those_eq_Some: "those os = Some vs \<longleftrightarrow> os = map Some vs"
proof (induction os arbitrary: vs)
  case Nil
  then show ?case by auto
next
  case (Cons x xs)
  then show ?case by (cases x) (auto split: option.splits)
qed

lemma get_list_Some:
  "get_list h rd l = Some vs \<longleftrightarrow>
     (\<exists>xs. l < length h \<and> h ! l = ListObj xs \<and> map rd xs = map Some vs)"
  by (auto simp: get_list_def lookup_def those_eq_Some split: option.splits obj.splits if_splits)

lemma get_entry_Some:
  "get_entry h c a = Some e \<longleftrightarrow> a < length h \<and> h ! a = Entry c e"
  by (auto simp: get_entry_def lookup_def split: option.splits obj.splits if_splits)

lemma get_target_Some:
  "get_target h a = Some t \<longleftrightarrow> a < length h \<and> h ! a = Target t"
  by (auto simp: get_target_def lookup_def split: option.splits obj.splits if_splits)

lemma map_eq_SomeD:
  "map rd xs = map Some vs \<Longrightarrow> x \<in> set xs \<Longrightarrow> \<exists>v. rd x = Some v"
  by (induction xs arbitrary: vs) auto

lemma entry_list_leaves:
  assumes "get_list h (get_entry h c) l = Some vs"
  shows "l < length h" and "h ! l = ListObj (items (h ! l))"
    and "\<forall>x \<in> set (items (h ! l)). x < length h \<and> leaf (h ! x)"
    and "\<forall>x \<in> set (items (h ! l)). \<exists>e. h ! x = Entry c e"
proof -
  from assms obtain xs where xs: "l < length h" "h ! l = ListObj xs"
      "map (get_entry h c) xs = map Some vs"
    by (auto simp: get_list_Some)
  have "x < length h \<and> leaf (h ! x) \<and> (\<exists>e. h ! x = Entry c e)" if "x \<in> set xs" for x
    using map_eq_SomeD[OF xs(3) that] by (auto simp: get_entry_Some leaf_def)
  then show "l < length h" and "h ! l = ListObj (items (h ! l))"
    and "\<forall>x \<in> set (items (h ! l)). x < length h \<and> leaf (h ! x)"
    and "\<forall>x \<in> set (items (h ! l)). \<exists>e. h ! x = Entry c e"
    using xs by simp_all
qed

lemma target_list_leaves:
  assumes "get_list h (get_target h) l = Some vs"
  shows "l < length h" and "h ! l = ListObj (items (h ! l))"
    and "\<forall>x \<in> set (items (h ! l)). x < length h \<and> leaf (h ! x)"
    and "\<forall>x \<in> set (items (h ! l)). \<exists>t. h ! x = Target t"
proof -
  from assms obtain xs where xs: "l < length h" "h ! l = ListObj xs"
      "map (get_target h) xs = map Some vs"
    by (auto simp: get_list_Some)
  have "x < length h \<and> leaf (h ! x) \<and> (\<exists>t. h ! x = Target t)" if "x \<in> set xs" for x
    using map_eq_SomeD[OF xs(3) that] by (auto simp: get_target_Some leaf_def)
  then show "l < length h" and "h ! l = ListObj (items (h ! l))"
    and "\<forall>x \<in> set (items (h ! l)). x < length h \<and> leaf (h ! x)"
    and "\<forall>x \<in> set (items (h ! l)). \<exists>t. h ! x = Target t"
    using xs by simp_all
qed

text \<open>What the memo invariants say about a copied list.\<close>

lemma copied_list:
  assumes inv: "memo_inv h0 h m" "lists_inv h0 h m"
    and l: "m l = Some l'" "h0 ! l = ListObj xs"
  shows "length h0 \<le> l' \<and> l' < length h
       \<and> (\<forall>y \<in> set (items (h ! l')). length h0 \<le> y \<and> y < length h)
       \<and> (\<forall>c. get_list h (get_entry h c) l' = get_list h0 (get_entry h0 c) l)
       \<and> get_list h (get_target h) l' = get_list h0 (get_target h0) l"
proof -
  from inv(1) l(1) have fr: "l < length h0" "length h0 \<le> l'" "l' < length h"
    by (auto simp: memo_inv_def)
  from inv(2) l obtain ys where ys: "h ! l' = ListObj ys" "map m xs = map Some ys"
    unfolding lists_inv_def by blast
  have len: "length ys = length xs" using ys(2) by (metis length_map)
  have el: "m (xs ! i) = Some (ys ! i)" if "i < length xs" for i
    using ys(2) that len by (metis nth_map)
  have fresh: "length h0 \<le> y \<and> y < length h" if "y \<in> set ys" for y
  proof -
    from that obtain i where "i < length ys" "ys ! i = y" by (auto simp: in_set_conv_nth)
    with el[of i] len inv(1) show ?thesis by (auto simp: memo_inv_def)
  qed
  have sl: "same_leaf h0 (xs ! i) h (ys ! i)" if "i < length xs" for i
    using el[OF that] inv(1) by (auto simp: memo_inv_def)
  have e: "map (get_entry h c) ys = map (get_entry h0 c) xs" for c
    using len sl by (auto simp: list_eq_iff_nth_eq same_leaf_def)
  have t: "map (get_target h) ys = map (get_target h0) xs"
    using len sl by (auto simp: list_eq_iff_nth_eq same_leaf_def)
  have "get_list h (get_entry h c) l' = get_list h0 (get_entry h0 c) l" for c
    using fr ys(1) l(2) e[of c] by (simp add: get_list_def lookup_def)
  moreover have "get_list h (get_target h) l' = get_list h0 (get_target h0) l"
    using fr ys(1) l(2) t by (simp add: get_list_def lookup_def)
  ultimately show ?thesis using fr fresh ys(1) by simp
qed

lemma read_profile_Some:
  "read_profile h p = Some P \<longleftrightarrow>
     (\<exists>po. p < length h \<and> h ! p = Profile po
        \<and> get_list h (get_entry h CarbRatioEntry) (carbratio po) = Some (carbratio P)
        \<and> get_list h (get_entry h SensitivityEntry) (ProfileStore.sens po) = Some (ProfileStore.sens P)
        \<and> get_list h (get_entry h BasalScheduleEntry) (basal po) = Some (basal P)
        \<and> get_list h (get_target h) (target_low po) = Some (target_low P)
        \<and> get_list h (get_target h) (target_high po) = Some (target_high P)
        \<and> ProfileStore.dia P = ProfileStore.dia po
        \<and> timezone P = timezone po \<and> ProfileStore.units P = ProfileStore.units po)"
  by (cases P) (auto simp: read_profile_def lookup_def Option.bind_eq_Some_conv
      split: option.splits obj.splits if_splits)

lemma get_list_append_old:
  assumes "l < length h" "\<forall>x \<in> set (items (h ! l)). x < length h"
  shows "get_list (h @ ext) (get_entry (h @ ext) c) l = get_list h (get_entry h c) l"
    and "get_list (h @ ext) (get_target (h @ ext)) l = get_list h (get_target h) l"
proof -
  have "map (get_entry (h @ ext) c) (items (h ! l)) = map (get_entry h c) (items (h ! l))"
    using assms(2) by (simp add: get_entry_append_old)
  then show "get_list (h @ ext) (get_entry (h @ ext) c) l = get_list h (get_entry h c) l"
    using assms(1) by (cases "h ! l") (simp_all add: get_list_def lookup_def nth_append cong: map_cong)
  have "map (get_target (h @ ext)) (items (h ! l)) = map (get_target h) (items (h ! l))"
    using assms(2) by (simp add: get_target_append_old)
  then show "get_list (h @ ext) (get_target (h @ ext)) l = get_list h (get_target h) l"
    using assms(1) by (cases "h ! l") (simp_all add: get_list_def lookup_def nth_append cong: map_cong)
qed

lemma model_copy_deep_read:
  assumes rp: "read_profile h p = Some P" and run: "model_copy_deep h p = (up, h1)"
  shows "(\<exists>ext. h1 = h @ ext) \<and> read_profile h1 up = Some P \<and> fresh (length h) h1 up"
proof -
  from rp obtain po where po: "p < length h" "h ! p = Profile po"
    and cr: "get_list h (get_entry h CarbRatioEntry) (carbratio po) = Some (carbratio P)"
    and se: "get_list h (get_entry h SensitivityEntry) (ProfileStore.sens po) = Some (ProfileStore.sens P)"
    and ba: "get_list h (get_entry h BasalScheduleEntry) (basal po) = Some (basal P)"
    and lo: "get_list h (get_target h) (target_low po) = Some (target_low P)"
    and hi: "get_list h (get_target h) (target_high po) = Some (target_high P)"
    and sc: "ProfileStore.dia P = ProfileStore.dia po" "timezone P = timezone po" "ProfileStore.units P = ProfileStore.units po"
    unfolding read_profile_Some by blast
  note l1 = entry_list_leaves[OF cr] and l2 = entry_list_leaves[OF se]
    and l3 = entry_list_leaves[OF ba] and l4 = target_list_leaves[OF lo]
    and l5 = target_list_leaves[OF hi]
  have i0: "memo_inv h h Map.empty" "lists_inv h h Map.empty"
    by (simp_all add: memo_inv_def lists_inv_def)
  obtain c1 h1' m1 where s1: "deepcopy_list h Map.empty (carbratio po) = (c1, h1', m1)"
    by (metis prod_cases3)
  obtain c2 h2 m2 where s2: "deepcopy_list h1' m1 (ProfileStore.sens po) = (c2, h2, m2)"
    by (metis prod_cases3)
  obtain c3 h3 m3 where s3: "deepcopy_list h2 m2 (basal po) = (c3, h3, m3)"
    by (metis prod_cases3)
  obtain c4 h4 m4 where s4: "deepcopy_list h3 m3 (target_low po) = (c4, h4, m4)"
    by (metis prod_cases3)
  obtain c5 h5 m5 where s5: "deepcopy_list h4 m4 (target_high po) = (c5, h5, m5)"
    by (metis prod_cases3)
  define po' where "po' = po\<lparr>carbratio := c1, ProfileStore.sens := c2, basal := c3,
                               target_low := c4, target_high := c5\<rparr>"
  from run po(2) s1 s2 s3 s4 s5 have res: "up = length h5" "h1 = h5 @ [Profile po']"
    by (simp_all add: model_copy_deep_def alloc_def po'_def)
  have r1: "memo_inv h h1' m1" "lists_inv h h1' m1" "m1 (carbratio po) = Some c1"
    using deepcopy_list_inv[OF i0 l1(1,2,3) s1] by simp_all
  have r2: "memo_inv h h2 m2" "lists_inv h h2 m2" "m1 \<subseteq>\<^sub>m m2" "m2 (ProfileStore.sens po) = Some c2"
    using deepcopy_list_inv[OF r1(1,2) l2(1,2,3) s2] by simp_all
  have r3: "memo_inv h h3 m3" "lists_inv h h3 m3" "m2 \<subseteq>\<^sub>m m3" "m3 (basal po) = Some c3"
    using deepcopy_list_inv[OF r2(1,2) l3(1,2,3) s3] by simp_all
  have r4: "memo_inv h h4 m4" "lists_inv h h4 m4" "m3 \<subseteq>\<^sub>m m4" "m4 (target_low po) = Some c4"
    using deepcopy_list_inv[OF r3(1,2) l4(1,2,3) s4] by simp_all
  have r5: "memo_inv h h5 m5" "lists_inv h h5 m5" "m4 \<subseteq>\<^sub>m m5" "m5 (target_high po) = Some c5"
    using deepcopy_list_inv[OF r4(1,2) l5(1,2,3) s5] by simp_all
  have up: "\<And>m m' a b. m \<subseteq>\<^sub>m m' \<Longrightarrow> m a = Some b \<Longrightarrow> m' a = Some b"
    by (metis domI map_le_def)
  have f4: "m5 (target_low po) = Some c4" using up[OF r5(3) r4(4)] .
  have f3: "m5 (basal po) = Some c3" using up[OF r5(3) up[OF r4(3) r3(4)]] .
  have f2: "m5 (ProfileStore.sens po) = Some c2"
    using up[OF r5(3) up[OF r4(3) up[OF r3(3) r2(4)]]] .
  have f1: "m5 (carbratio po) = Some c1"
    using up[OF r5(3) up[OF r4(3) up[OF r3(3) up[OF r2(3) r1(3)]]]] .
  note k1 = copied_list[OF r5(1,2) f1 l1(2)]
  note k2 = copied_list[OF r5(1,2) f2 l2(2)]
  note k3 = copied_list[OF r5(1,2) f3 l3(2)]
  note k4 = copied_list[OF r5(1,2) f4 l4(2)]
  note k5 = copied_list[OF r5(1,2) r5(4) l5(2)]
  from r5(1) obtain ext where ext: "h5 = h @ ext" by (auto simp: memo_inv_def)
  have q1: "length h \<le> c1 \<and> c1 < length h5
       \<and> (\<forall>y \<in> set (items (h5 ! c1)). length h \<le> y \<and> y < length h5)
       \<and> get_list h5 (get_entry h5 CarbRatioEntry) c1 = Some (carbratio P)"
    using k1 cr by simp
  have q2: "length h \<le> c2 \<and> c2 < length h5
       \<and> (\<forall>y \<in> set (items (h5 ! c2)). length h \<le> y \<and> y < length h5)
       \<and> get_list h5 (get_entry h5 SensitivityEntry) c2 = Some (ProfileStore.sens P)"
    using k2 se by simp
  have q3: "length h \<le> c3 \<and> c3 < length h5
       \<and> (\<forall>y \<in> set (items (h5 ! c3)). length h \<le> y \<and> y < length h5)
       \<and> get_list h5 (get_entry h5 BasalScheduleEntry) c3 = Some (basal P)"
    using k3 ba by simp
  have q4: "length h \<le> c4 \<and> c4 < length h5
       \<and> (\<forall>y \<in> set (items (h5 ! c4)). length h \<le> y \<and> y < length h5)
       \<and> get_list h5 (get_target h5) c4 = Some (target_low P)"
    using k4 lo by simp
  have q5: "length h \<le> c5 \<and> c5 < length h5
       \<and> (\<forall>y \<in> set (items (h5 ! c5)). length h \<le> y \<and> y < length h5)
       \<and> get_list h5 (get_target h5) c5 = Some (target_high P)"
    using k5 hi by simp
  have "read_profile h1 up = Some P"
    unfolding read_profile_Some
    apply (rule exI[of _ po'])
    using q1 q2 q3 q4 q5 sc
    by (simp add: res po'_def get_list_append_old)
  moreover have "fresh (length h) h1 up"
  proof -
    have fu: "attrs (h1 ! up) = po'" by (simp add: res)
    have it: "items (h1 ! c) = items (h5 ! c)" if "c < length h5" for c
      using that by (simp add: res nth_append)
    have len: "length h1 = Suc (length h5)" "length h \<le> length h5"
      using ext by (simp_all add: res)
    have b: "length h \<le> a \<and> a < length h1"
      if "a \<in> set (items (h1 ! c))" "length h \<le> c \<and> c < length h5
         \<and> (\<forall>y \<in> set (items (h5 ! c)). length h \<le> y \<and> y < length h5)" for a c
      using that it[of c] len by auto
    have "length h \<le> a \<and> a < length h1" if "a \<in> reachable h1 up" for a
    proof -
      from that consider "a = up"
        | "a \<in> {c1, c2, c3, c4, c5}"
        | c where "c \<in> {c1, c2, c3, c4, c5}" "a \<in> set (items (h1 ! c))"
        unfolding reachable_def fu Let_def by (auto simp: po'_def)
      then show ?thesis
      proof cases
        case 1
        then show ?thesis using len res by simp
      next
        case 2
        then show ?thesis using q1 q2 q3 q4 q5 len by auto
      next
        case 3
        then show ?thesis using b[OF 3(2)] q1 q2 q3 q4 q5 by blast
      qed
    qed
    then show ?thesis by (simp add: fresh_def)
  qed
  moreover have "\<exists>ext. h1 = h @ ext" using ext res by simp
  ultimately show ?thesis by simp
qed

subsection \<open>The two value loops\<close>

lemma setattr_value_idem: "setattr_value (setattr_value x v) v = setattr_value x v"
  by (cases x) simp_all

lemma value_loop_nth:
  "length (foldl (\<lambda>h e. set_value h e v) h ys) = length h \<and>
   (\<forall>b < length h. foldl (\<lambda>h e. set_value h e v) h ys ! b =
      (if b \<in> set ys then setattr_value (h ! b) v else h ! b))"
proof (induction ys arbitrary: h)
  case Nil
  then show ?case by simp
next
  case (Cons y ys)
  have len: "length (set_value h y v) = length h" by (simp add: set_value_def)
  have nth: "set_value h y v ! b = (if b = y then setattr_value (h ! b) v else h ! b)"
    if "b < length h" for b
    using that by (simp add: set_value_def nth_list_update)
  show ?case
    using Cons.IH[of "set_value h y v"] len nth
    by (auto simp: setattr_value_idem)
qed

lemma value_loop_reads:
  assumes ys: "\<forall>y \<in> set ys. \<exists>e. y < length h \<and> h ! y = Entry c0 e"
    and h': "h' = foldl (\<lambda>h e. set_value h e v) h ys"
  shows "length h' = length h"
    and "\<And>b. b < length h \<Longrightarrow> b \<notin> set ys \<Longrightarrow> h' ! b = h ! b"
    and "\<And>b xs. b < length h \<Longrightarrow> h ! b = ListObj xs \<Longrightarrow> h' ! b = ListObj xs"
    and "\<And>b po. b < length h \<Longrightarrow> h ! b = Profile po \<Longrightarrow> h' ! b = Profile po"
    and "\<And>b. get_target h' b = get_target h b"
    and "\<And>b c. c \<noteq> c0 \<Longrightarrow> get_entry h' c b = get_entry h c b"
    and "\<And>b. b \<in> set ys \<Longrightarrow>
           get_entry h' c0 b = map_option (\<lambda>e. e\<lparr>value := v\<rparr>) (get_entry h c0 b)"
proof -
  note n = value_loop_nth[of v h ys, folded h']
  show len: "length h' = length h" using n by simp
  have nth: "h' ! b = (if b \<in> set ys then setattr_value (h ! b) v else h ! b)"
    if "b < length h" for b using n that by simp
  show "h' ! b = h ! b" if "b < length h" "b \<notin> set ys" for b
    using nth that by simp
  show "h' ! b = ListObj xs" if "b < length h" "h ! b = ListObj xs" for b xs
    using nth[OF that(1)] that(2) by simp
  show "h' ! b = Profile po" if "b < length h" "h ! b = Profile po" for b po
    using nth[OF that(1)] that(2) by simp
  show "get_target h' b = get_target h b" for b
  proof (cases "b < length h")
    case True
    then show ?thesis using nth[OF True] ys len
      by (auto simp: get_target_def lookup_def)
  next
    case False
    then show ?thesis using len by (simp add: get_target_def lookup_def)
  qed
  show "get_entry h' c b = get_entry h c b" if "c \<noteq> c0" for b c
  proof (cases "b < length h")
    case True
    then show ?thesis using nth[OF True] ys len that
      by (cases "h ! b") (auto simp: get_entry_def lookup_def)
  next
    case False
    then show ?thesis using len by (simp add: get_entry_def lookup_def)
  qed
  show "get_entry h' c0 b = map_option (\<lambda>e. e\<lparr>value := v\<rparr>) (get_entry h c0 b)"
    if "b \<in> set ys" for b
    using ys that nth[of b] len by (auto simp: get_entry_def lookup_def)
qed

lemma get_list_same:
  assumes "l < length h" "h ! l = ListObj xs" "length h' = length h" "h' ! l = ListObj xs"
    and "\<forall>x \<in> set xs. rd' x = rd x"
  shows "get_list h' rd' l = get_list h rd l"
  using assms by (simp add: get_list_def lookup_def cong: map_cong)

lemma get_list_mapped:
  assumes "get_list h rd l = Some vs" "h ! l = ListObj xs" "length h' = length h"
    "h' ! l = ListObj xs" and "\<forall>x \<in> set xs. rd' x = map_option f (rd x)"
  shows "get_list h' rd' l = Some (map f vs)"
proof -
  from assms(1,2) have l: "l < length h" and m: "map rd xs = map Some vs"
    by (auto simp: get_list_Some)
  have "map rd' xs = map (map_option f) (map rd xs)" using assms(5) by simp
  also have "\<dots> = map Some (map f vs)" unfolding m by simp
  finally show ?thesis using l assms(3,4) by (auto simp: get_list_Some)
qed

lemma carbratio_loop_read:
  assumes rp: "read_profile h up = Some P"
    and h': "h' = foldl (\<lambda>h e. set_value h e v) h (items (h ! carbratio (attrs (h ! up))))"
  shows "read_profile h' up = Some (P\<lparr>carbratio := map (\<lambda>e. e\<lparr>value := v\<rparr>) (carbratio P)\<rparr>)"
    and "length h' = length h"
    and "\<And>b. b < length h \<Longrightarrow> b \<notin> reachable h up \<Longrightarrow> h' ! b = h ! b"
    and "reachable h' up = reachable h up"
proof -
  from rp obtain po where po: "up < length h" "h ! up = Profile po"
    and cr: "get_list h (get_entry h CarbRatioEntry) (carbratio po) = Some (carbratio P)"
    and se: "get_list h (get_entry h SensitivityEntry) (ProfileStore.sens po) = Some (ProfileStore.sens P)"
    and ba: "get_list h (get_entry h BasalScheduleEntry) (basal po) = Some (basal P)"
    and lo: "get_list h (get_target h) (target_low po) = Some (target_low P)"
    and hi: "get_list h (get_target h) (target_high po) = Some (target_high P)"
    and sc: "ProfileStore.dia P = ProfileStore.dia po" "timezone P = timezone po" "ProfileStore.units P = ProfileStore.units po"
    unfolding read_profile_Some by blast
  note l1 = entry_list_leaves[OF cr] and l2 = entry_list_leaves[OF se]
    and l3 = entry_list_leaves[OF ba] and l4 = target_list_leaves[OF lo]
    and l5 = target_list_leaves[OF hi]
  define ys where "ys = items (h ! carbratio po)"
  have h'': "h' = foldl (\<lambda>h e. set_value h e v) h ys"
    using h' po(2) by (simp add: ys_def)
  have ys: "\<forall>y \<in> set ys. \<exists>e. y < length h \<and> h ! y = Entry CarbRatioEntry e"
    using l1(3,4) by (simp add: ys_def)
  note v = value_loop_reads[OF ys h'']
  show len: "length h' = length h" by (rule v(1))
  have k1: "h' ! carbratio po = ListObj (items (h ! carbratio po))" by (rule v(3)[OF l1(1,2)])
  have k2: "h' ! ProfileStore.sens po = ListObj (items (h ! ProfileStore.sens po))"
    by (rule v(3)[OF l2(1,2)])
  have k3: "h' ! basal po = ListObj (items (h ! basal po))" by (rule v(3)[OF l3(1,2)])
  have k4: "h' ! target_low po = ListObj (items (h ! target_low po))" by (rule v(3)[OF l4(1,2)])
  have k5: "h' ! target_high po = ListObj (items (h ! target_high po))" by (rule v(3)[OF l5(1,2)])
  have kp: "h' ! up = Profile po" by (rule v(4)[OF po])
  have g1: "get_list h' (get_entry h' CarbRatioEntry) (carbratio po) = Some (map (\<lambda>e. e\<lparr>value := v\<rparr>) (carbratio P))"
    using get_list_mapped[OF cr l1(2) len k1, of "get_entry h' CarbRatioEntry" "\<lambda>e. e\<lparr>value := v\<rparr>"]
      v(7) by (simp add: ys_def)
  have g2: "get_list h' (get_entry h' SensitivityEntry) (ProfileStore.sens po) = Some ((ProfileStore.sens P))"
    using get_list_same[OF l2(1,2) len k2, of "get_entry h' SensitivityEntry" "get_entry h SensitivityEntry"]
      v(6)[of SensitivityEntry] se by simp
  have g3: "get_list h' (get_entry h' BasalScheduleEntry) (basal po) = Some (basal P)"
    using get_list_same[OF l3(1,2) len k3, of "get_entry h' BasalScheduleEntry" "get_entry h BasalScheduleEntry"]
      v(6)[of BasalScheduleEntry] ba by simp
  have g4: "get_list h' (get_target h') (target_low po) = Some (target_low P)"
    using get_list_same[OF l4(1,2) len k4, of "get_target h'" "get_target h"] v(5) lo by simp
  have g5: "get_list h' (get_target h') (target_high po) = Some (target_high P)"
    using get_list_same[OF l5(1,2) len k5, of "get_target h'" "get_target h"] v(5) hi by simp
  show "read_profile h' up = Some (P\<lparr>carbratio := map (\<lambda>e. e\<lparr>value := v\<rparr>) (carbratio P)\<rparr>)"
    unfolding read_profile_Some
    apply (rule exI[of _ po])
    using po(1) len kp g1 g2 g3 g4 g5 sc
    by simp
  have "set ys \<subseteq> reachable h up"
    by (auto simp: reachable_def po(2) ys_def Let_def)
  then show "h' ! b = h ! b" if "b < length h" "b \<notin> reachable h up" for b
    using v(2)[of b] that by auto
  show "reachable h' up = reachable h up"
    unfolding reachable_def Let_def kp po(2) attrs.simps
    using k1 k2 k3 k4 k5 by simp
qed

lemma sens_loop_read:
  assumes rp: "read_profile h up = Some P"
    and h': "h' = foldl (\<lambda>h e. set_value h e v) h (items (h ! ProfileStore.sens (attrs (h ! up))))"
  shows "read_profile h' up = Some (P\<lparr>ProfileStore.sens := map (\<lambda>e. e\<lparr>value := v\<rparr>) (ProfileStore.sens P)\<rparr>)"
    and "length h' = length h"
    and "\<And>b. b < length h \<Longrightarrow> b \<notin> reachable h up \<Longrightarrow> h' ! b = h ! b"
    and "reachable h' up = reachable h up"
proof -
  from rp obtain po where po: "up < length h" "h ! up = Profile po"
    and cr: "get_list h (get_entry h CarbRatioEntry) (carbratio po) = Some (carbratio P)"
    and se: "get_list h (get_entry h SensitivityEntry) (ProfileStore.sens po) = Some (ProfileStore.sens P)"
    and ba: "get_list h (get_entry h BasalScheduleEntry) (basal po) = Some (basal P)"
    and lo: "get_list h (get_target h) (target_low po) = Some (target_low P)"
    and hi: "get_list h (get_target h) (target_high po) = Some (target_high P)"
    and sc: "ProfileStore.dia P = ProfileStore.dia po" "timezone P = timezone po" "ProfileStore.units P = ProfileStore.units po"
    unfolding read_profile_Some by blast
  note l1 = entry_list_leaves[OF cr] and l2 = entry_list_leaves[OF se]
    and l3 = entry_list_leaves[OF ba] and l4 = target_list_leaves[OF lo]
    and l5 = target_list_leaves[OF hi]
  define ys where "ys = items (h ! ProfileStore.sens po)"
  have h'': "h' = foldl (\<lambda>h e. set_value h e v) h ys"
    using h' po(2) by (simp add: ys_def)
  have ys: "\<forall>y \<in> set ys. \<exists>e. y < length h \<and> h ! y = Entry SensitivityEntry e"
    using l2(3,4) by (simp add: ys_def)
  note v = value_loop_reads[OF ys h'']
  show len: "length h' = length h" by (rule v(1))
  have k1: "h' ! carbratio po = ListObj (items (h ! carbratio po))" by (rule v(3)[OF l1(1,2)])
  have k2: "h' ! ProfileStore.sens po = ListObj (items (h ! ProfileStore.sens po))"
    by (rule v(3)[OF l2(1,2)])
  have k3: "h' ! basal po = ListObj (items (h ! basal po))" by (rule v(3)[OF l3(1,2)])
  have k4: "h' ! target_low po = ListObj (items (h ! target_low po))" by (rule v(3)[OF l4(1,2)])
  have k5: "h' ! target_high po = ListObj (items (h ! target_high po))" by (rule v(3)[OF l5(1,2)])
  have kp: "h' ! up = Profile po" by (rule v(4)[OF po])
  have g1: "get_list h' (get_entry h' CarbRatioEntry) (carbratio po) = Some ((carbratio P))"
    using get_list_same[OF l1(1,2) len k1, of "get_entry h' CarbRatioEntry" "get_entry h CarbRatioEntry"]
      v(6)[of CarbRatioEntry] cr by simp
  have g2: "get_list h' (get_entry h' SensitivityEntry) (ProfileStore.sens po) = Some (map (\<lambda>e. e\<lparr>value := v\<rparr>) (ProfileStore.sens P))"
    using get_list_mapped[OF se l2(2) len k2, of "get_entry h' SensitivityEntry" "\<lambda>e. e\<lparr>value := v\<rparr>"]
      v(7) by (simp add: ys_def)
  have g3: "get_list h' (get_entry h' BasalScheduleEntry) (basal po) = Some (basal P)"
    using get_list_same[OF l3(1,2) len k3, of "get_entry h' BasalScheduleEntry" "get_entry h BasalScheduleEntry"]
      v(6)[of BasalScheduleEntry] ba by simp
  have g4: "get_list h' (get_target h') (target_low po) = Some (target_low P)"
    using get_list_same[OF l4(1,2) len k4, of "get_target h'" "get_target h"] v(5) lo by simp
  have g5: "get_list h' (get_target h') (target_high po) = Some (target_high P)"
    using get_list_same[OF l5(1,2) len k5, of "get_target h'" "get_target h"] v(5) hi by simp
  show "read_profile h' up = Some (P\<lparr>ProfileStore.sens := map (\<lambda>e. e\<lparr>value := v\<rparr>) (ProfileStore.sens P)\<rparr>)"
    unfolding read_profile_Some
    apply (rule exI[of _ po])
    using po(1) len kp g1 g2 g3 g4 g5 sc
    by simp
  have "set ys \<subseteq> reachable h up"
    by (auto simp: reachable_def po(2) ys_def Let_def)
  then show "h' ! b = h ! b" if "b < length h" "b \<notin> reachable h up" for b
    using v(2)[of b] that by auto
  show "reachable h' up = reachable h up"
    unfolding reachable_def Let_def kp po(2) attrs.simps
    using k1 k2 k3 k4 k5 by simp
qed

subsection \<open>The basal loop and the assignment of \<open>dia\<close>\<close>

lemma basal_loop_result:
  assumes "up < length h" "h ! up = Profile po" "basal po = l" "l < length h" "l \<noteq> up"
    "h ! l = ListObj as" "basal_loop h up bs = (r, h')"
  shows "length h \<le> length h' \<and> (\<forall>b < length h. b \<noteq> l \<longrightarrow> h' ! b = h ! b) \<and>
    (case convert_all bs of
       Inl e \<Rightarrow> r = Inl e
     | Inr ns \<Rightarrow> r = Inr () \<and> length h' = length h + length ns
          \<and> h' ! l = ListObj (as @ [length h..<length h + length ns])
          \<and> (\<forall>i < length ns. h' ! (length h + i) = Entry BasalScheduleEntry (ns ! i)))"
  using assms
proof (induction bs arbitrary: h as r h')
  case Nil
  then show ?case by simp
next
  case (Cons b bs)
  show ?case
  proof (cases "convert_basal b")
    case (Inl e)
    with Cons.prems show ?thesis by simp
  next
    case (Inr n)
    define h1 where "h1 = h @ [Entry BasalScheduleEntry n]"
    define h2 where "h2 = h1[l := ListObj (as @ [length h])]"
    have a1: "attrs (h1 ! up) = po" using Cons.prems(1,2) by (simp add: h1_def nth_append)
    have a2: "items (h1 ! l) = as" using Cons.prems(4,6) by (simp add: h1_def nth_append)
    have run: "basal_loop h2 up bs = (r, h')"
      using Cons.prems(7) Inr a1 a2 Cons.prems(3)
      by (simp add: alloc_def list_append_def h1_def[symmetric] h2_def)
    have len2: "length h2 = Suc (length h)" by (simp add: h2_def h1_def)
    have p1: "up < length h2" using Cons.prems(1) len2 by simp
    have p2: "h2 ! up = Profile po"
      using Cons.prems(1,2,5) by (simp add: h2_def h1_def nth_append)
    have p4: "l < length h2" using Cons.prems(4) len2 by simp
    have p6: "h2 ! l = ListObj (as @ [length h])"
      using Cons.prems(4) by (simp add: h2_def h1_def)
    note ih = Cons.IH[OF p1 p2 Cons.prems(3) p4 Cons.prems(5) p6 run]
    have old: "h2 ! b = h ! b" if "b < length h" "b \<noteq> l" for b
      using that by (simp add: h2_def h1_def nth_append)
    have new: "h2 ! length h = Entry BasalScheduleEntry n"
      using Cons.prems(4) by (simp add: h2_def h1_def nth_append)
    have frame: "length h \<le> length h' \<and> (\<forall>b < length h. b \<noteq> l \<longrightarrow> h' ! b = h ! b)"
      using ih old len2 by auto
    show ?thesis
    proof (cases "convert_all bs")
      case (Inl e)
      with ih frame Inr show ?thesis by simp
    next
      case (Inr ns)
      with ih have s: "r = Inr ()" "length h' = length h2 + length ns"
        "h' ! l = ListObj ((as @ [length h]) @ [length h2..<length h2 + length ns])"
        "\<forall>i < length ns. h' ! (length h2 + i) = Entry BasalScheduleEntry (ns ! i)"
        by simp_all
      have hd: "h' ! length h = Entry BasalScheduleEntry n"
        using ih new len2 Cons.prems(4) by auto
      have e: "h' ! (length h + i) = Entry BasalScheduleEntry ((n # ns) ! i)"
        if "i < Suc (length ns)" for i
      proof (cases i)
        case 0
        then show ?thesis using hd by simp
      next
        case (Suc j)
        then show ?thesis using s(4) that len2 by simp
      qed
      have u: "[length h..<length h + Suc (length ns)]
               = length h # [Suc (length h)..<Suc (length h) + length ns]"
        by (subst upt_rec) simp
      show ?thesis
        using frame s(1,2,3) e u \<open>convert_basal b = Inr n\<close> Inr len2 by simp
    qed
  qed
qed

lemma get_list_frame:
  assumes "l < length h" "h ! l = ListObj xs" "l < length h'" "h' ! l = ListObj xs"
    and "\<forall>x \<in> set xs. rd' x = rd x"
  shows "get_list h' rd' l = get_list h rd l"
  using assms by (simp add: get_list_def lookup_def cong: map_cong)

text \<open>A store that differs from \<open>h\<close> below \<open>length h\<close> only at the profile object.\<close>

lemma read_profile_frame:
  assumes rp: "read_profile h up = Some P"
    and len: "length h \<le> length h'"
    and same: "\<forall>b < length h. b \<noteq> up \<longrightarrow> h' ! b = h ! b"
  shows "get_list h' (get_entry h' CarbRatioEntry) (carbratio (attrs (h ! up))) = Some (carbratio P)"
    and "get_list h' (get_entry h' SensitivityEntry) (ProfileStore.sens (attrs (h ! up))) = Some (ProfileStore.sens P)"
    and "get_list h' (get_entry h' BasalScheduleEntry) (basal (attrs (h ! up))) = Some (basal P)"
    and "get_list h' (get_target h') (target_low (attrs (h ! up))) = Some (target_low P)"
    and "get_list h' (get_target h') (target_high (attrs (h ! up))) = Some (target_high P)"
    and "\<And>l. l \<in> {carbratio (attrs (h ! up)), ProfileStore.sens (attrs (h ! up)),
              basal (attrs (h ! up)), target_low (attrs (h ! up)), target_high (attrs (h ! up))}
          \<Longrightarrow> items (h' ! l) = items (h ! l)"
proof -
  from rp obtain po where po: "up < length h" "h ! up = Profile po"
    and cr: "get_list h (get_entry h CarbRatioEntry) (carbratio po) = Some (carbratio P)"
    and se: "get_list h (get_entry h SensitivityEntry) (ProfileStore.sens po) = Some (ProfileStore.sens P)"
    and ba: "get_list h (get_entry h BasalScheduleEntry) (basal po) = Some (basal P)"
    and lo: "get_list h (get_target h) (target_low po) = Some (target_low P)"
    and hi: "get_list h (get_target h) (target_high po) = Some (target_high P)"
    unfolding read_profile_Some by blast
  note l1 = entry_list_leaves[OF cr] and l2 = entry_list_leaves[OF se]
    and l3 = entry_list_leaves[OF ba] and l4 = target_list_leaves[OF lo]
    and l5 = target_list_leaves[OF hi]
  have keep: "h' ! b = h ! b" if "b < length h" "h ! b \<noteq> Profile po" for b
    using same that po(2) by auto
  have ent: "\<forall>x \<in> set xs. get_entry h' c x = get_entry h c x"
    if "\<forall>x \<in> set xs. x < length h \<and> leaf (h ! x)" "\<forall>x \<in> set xs. \<exists>e. h ! x = Entry c' e"
    for c c' xs
  proof
    fix x assume x: "x \<in> set xs"
    with that obtain e where "x < length h" "h ! x = Entry c' e" by blast
    then show "get_entry h' c x = get_entry h c x"
      using keep[of x] len by (auto simp: get_entry_def lookup_def)
  qed
  have tar: "\<forall>x \<in> set xs. get_target h' x = get_target h x"
    if "\<forall>x \<in> set xs. x < length h \<and> leaf (h ! x)" "\<forall>x \<in> set xs. \<exists>e. h ! x = Target e"
    for xs
  proof
    fix x assume x: "x \<in> set xs"
    with that obtain e where "x < length h" "h ! x = Target e" by blast
    then show "get_target h' x = get_target h x"
      using keep[of x] len by (auto simp: get_target_def lookup_def)
  qed
  have lst: "l < length h' \<and> h' ! l = ListObj xs" if "l < length h" "h ! l = ListObj xs" for l xs
    using keep[of l] that len by auto
  have f: "attrs (h ! up) = po" using po(2) by simp
  show "get_list h' (get_entry h' CarbRatioEntry) (carbratio (attrs (h ! up))) = Some (carbratio P)"
    unfolding f using get_list_frame[OF l1(1,2), of h' "get_entry h' CarbRatioEntry" "get_entry h CarbRatioEntry"]
      lst[OF l1(1,2)] ent[OF l1(3,4)] cr by simp
  show "get_list h' (get_entry h' SensitivityEntry) (ProfileStore.sens (attrs (h ! up))) = Some (ProfileStore.sens P)"
    unfolding f using get_list_frame[OF l2(1,2), of h' "get_entry h' SensitivityEntry" "get_entry h SensitivityEntry"]
      lst[OF l2(1,2)] ent[OF l2(3,4)] se by simp
  show "get_list h' (get_entry h' BasalScheduleEntry) (basal (attrs (h ! up))) = Some (basal P)"
    unfolding f using get_list_frame[OF l3(1,2), of h' "get_entry h' BasalScheduleEntry" "get_entry h BasalScheduleEntry"]
      lst[OF l3(1,2)] ent[OF l3(3,4)] ba by simp
  show "get_list h' (get_target h') (target_low (attrs (h ! up))) = Some (target_low P)"
    unfolding f using get_list_frame[OF l4(1,2), of h' "get_target h'" "get_target h"]
      lst[OF l4(1,2)] tar[OF l4(3,4)] lo by simp
  show "get_list h' (get_target h') (target_high (attrs (h ! up))) = Some (target_high P)"
    unfolding f using get_list_frame[OF l5(1,2), of h' "get_target h'" "get_target h"]
      lst[OF l5(1,2)] tar[OF l5(3,4)] hi by simp
  show "items (h' ! l) = items (h ! l)"
    if "l \<in> {carbratio (attrs (h ! up)), ProfileStore.sens (attrs (h ! up)),
              basal (attrs (h ! up)), target_low (attrs (h ! up)), target_high (attrs (h ! up))}" for l
    using that unfolding f
    using lst[OF l1(1,2)] lst[OF l2(1,2)] lst[OF l3(1,2)] lst[OF l4(1,2)] lst[OF l5(1,2)]
      l1(2) l2(2) l3(2) l4(2) l5(2)
    by auto
qed

lemma fresh_frame:
  assumes rp: "read_profile h up = Some P" and fr: "fresh n h up"
    and len: "length h \<le> length h'"
    and same: "\<forall>b < length h. b \<noteq> up \<longrightarrow> h' ! b = h ! b"
    and up: "h' ! up = Profile po'"
      "carbratio po' = carbratio (attrs (h ! up))"
      "ProfileStore.sens po' = ProfileStore.sens (attrs (h ! up))"
      "target_low po' = target_low (attrs (h ! up))"
      "target_high po' = target_high (attrs (h ! up))"
    and ba: "n \<le> basal po'" "basal po' < length h'"
      "\<forall>y \<in> set (items (h' ! basal po')). n \<le> y \<and> y < length h'"
  shows "fresh n h' up"
proof -
  note it = read_profile_frame(6)[OF rp len same]
  define po where "po = attrs (h ! up)"
  have old: "n \<le> a \<and> a < length h" if "a \<in> reachable h up" for a
    using fr that by (simp add: fresh_def)
  have r0: "n \<le> up \<and> up < length h" by (rule old) (simp add: reachable_def Let_def)
  have r1: "n \<le> l \<and> l < length h \<and> (\<forall>y \<in> set (items (h' ! l)). n \<le> y \<and> y < length h)"
    if "l \<in> {carbratio po, ProfileStore.sens po, target_low po, target_high po}" for l
  proof -
    have m: "l \<in> {carbratio po, ProfileStore.sens po, basal po, target_low po, target_high po}"
      using that by auto
    have "l \<in> reachable h up" using m by (auto simp: reachable_def Let_def po_def)
    moreover have "y \<in> reachable h up" if "y \<in> set (items (h ! l))" for y
      using m that unfolding reachable_def Let_def po_def[symmetric] by auto
    moreover have "items (h' ! l) = items (h ! l)" using it[of l] m by (simp add: po_def)
    ultimately show ?thesis using old by auto
  qed
  have "n \<le> a \<and> a < length h'" if "a \<in> reachable h' up" for a
  proof -
    from that consider "a = up"
      | "a \<in> {carbratio po, ProfileStore.sens po, target_low po, target_high po}"
      | "a = basal po'"
      | l where "l \<in> {carbratio po, ProfileStore.sens po, target_low po, target_high po}"
          "a \<in> set (items (h' ! l))"
      | "a \<in> set (items (h' ! basal po'))"
      unfolding reachable_def Let_def up(1) attrs.simps up(2-5) po_def[symmetric] by auto
    then show ?thesis
    proof cases
      case 1
      then show ?thesis using r0 len by simp
    next
      case 2
      then show ?thesis using r1[of a] len by auto
    next
      case 3
      then show ?thesis using ba by simp
    next
      case 4
      then show ?thesis using r1[OF 4(1)] len by auto
    next
      case 5
      then show ?thesis using ba by simp
    qed
  qed
  then show ?thesis by (simp add: fresh_def)
qed

lemma basal_phase:
  assumes rp: "read_profile h up = Some P" and fr: "fresh n h up"
    and run: "(let (l, h') = alloc h (ListObj [])
               in basal_loop (set_basal h' up l) up bs) = (r, h4)"
  shows "length h \<le> length h4" and "\<forall>b < length h. b \<noteq> up \<longrightarrow> h4 ! b = h ! b"
    and "case convert_all bs of
           Inl e \<Rightarrow> r = Inl e
         | Inr ns \<Rightarrow> r = Inr () \<and> read_profile h4 up = Some (P\<lparr>basal := ns\<rparr>) \<and> fresh n h4 up"
proof -
  from rp obtain po where po: "up < length h" "h ! up = Profile po"
    and sc: "ProfileStore.dia P = ProfileStore.dia po" "timezone P = timezone po" "ProfileStore.units P = ProfileStore.units po"
    unfolding read_profile_Some by blast
  define l where "l = length h"
  define po2 where "po2 = po\<lparr>basal := l\<rparr>"
  define hs where "hs = (h @ [ListObj []])[up := Profile po2]"
  have hs: "set_basal (h @ [ListObj []]) up l = hs"
    using po by (simp add: set_basal_def hs_def po2_def nth_append)
  from run have run': "basal_loop hs up bs = (r, h4)"
    by (simp add: alloc_def l_def[symmetric] hs)
  have lens: "length hs = Suc (length h)" by (simp add: hs_def)
  have q1: "up < length hs" using po(1) lens by simp
  have q2: "hs ! up = Profile po2" using po(1) by (simp add: hs_def)
  have q3: "basal po2 = l" by (simp add: po2_def)
  have q4: "l < length hs" by (simp add: l_def lens)
  have q5: "l \<noteq> up" using po(1) by (simp add: l_def)
  have q6: "hs ! l = ListObj []" using po(1) by (simp add: hs_def l_def nth_append)
  note res = basal_loop_result[OF q1 q2 q3 q4 q5 q6 run']
  have hs_old: "hs ! b = h ! b" if "b < length h" "b \<noteq> up" for b
    using that by (simp add: hs_def nth_append)
  show len: "length h \<le> length h4" using res lens by simp
  show same: "\<forall>b < length h. b \<noteq> up \<longrightarrow> h4 ! b = h ! b"
    using res hs_old lens by (auto simp: l_def)
  have up4: "h4 ! up = Profile po2" using res q1 q2 q5 by auto
  have f: "attrs (h ! up) = po" using po(2) by simp
  note rd = read_profile_frame[OF rp len same, unfolded f]
  show "case convert_all bs of
           Inl e \<Rightarrow> r = Inl e
         | Inr ns \<Rightarrow> r = Inr () \<and> read_profile h4 up = Some (P\<lparr>basal := ns\<rparr>) \<and> fresh n h4 up"
  proof (cases "convert_all bs")
    case (Inl e)
    then show ?thesis using res by simp
  next
    case (Inr ns)
    with res have s: "r = Inr ()" "length h4 = length hs + length ns"
      "h4 ! l = ListObj [length hs..<length hs + length ns]"
      "\<forall>i < length ns. h4 ! (length hs + i) = Entry BasalScheduleEntry (ns ! i)"
      by simp_all
    have "map (get_entry h4 BasalScheduleEntry) [length hs..<length hs + length ns] = map Some ns"
    proof (rule nth_equalityI)
      show "length (map (get_entry h4 BasalScheduleEntry) [length hs..<length hs + length ns])
            = length (map Some ns)" by simp
    next
      fix i assume "i < length (map (get_entry h4 BasalScheduleEntry) [length hs..<length hs + length ns])"
      then have i: "i < length ns" by simp
      then have "get_entry h4 BasalScheduleEntry (length hs + i) = Some (ns ! i)"
        using s(2,4) by (simp add: get_entry_Some)
      then show "map (get_entry h4 BasalScheduleEntry) [length hs..<length hs + length ns] ! i
                 = map Some ns ! i" using i by simp
    qed
    then have gb: "get_list h4 (get_entry h4 BasalScheduleEntry) l = Some ns"
      using s(2,3) q4 by (auto simp: get_list_Some)
    have "read_profile h4 up = Some (P\<lparr>basal := ns\<rparr>)"
      unfolding read_profile_Some
      apply (rule exI[of _ po2])
      using up4 po(1) len rd(1,2,4,5) gb sc
      by (simp add: po2_def)
    moreover have nl: "n \<le> l" using fr po(1) by (auto simp: fresh_def reachable_def l_def Let_def)
    have "fresh n h4 up"
      by (rule fresh_frame[OF rp fr len same up4])
        (use nl s(2,3) q4 lens in \<open>auto simp: po2_def f\<close>)
    ultimately show ?thesis using Inr s(1) by simp
  qed
qed

lemma dia_phase:
  assumes rp: "read_profile h up = Some P" and fr: "fresh n h up"
  shows "read_profile (set_dia h up d) up = Some (P\<lparr>ProfileStore.dia := d\<rparr>)"
    and "fresh n (set_dia h up d) up"
    and "length (set_dia h up d) = length h"
    and "\<forall>b < length h. b \<noteq> up \<longrightarrow> set_dia h up d ! b = h ! b"
proof -
  from rp obtain po where po: "up < length h" "h ! up = Profile po"
    and sc: "timezone P = timezone po" "ProfileStore.units P = ProfileStore.units po"
    unfolding read_profile_Some by blast
  define h' where "h' = set_dia h up d"
  have h': "h' = h[up := Profile (po\<lparr>ProfileStore.dia := d\<rparr>)]"
    using po by (simp add: h'_def set_dia_def)
  have len: "length h \<le> length h'" by (simp add: h')
  have same: "\<forall>b < length h. b \<noteq> up \<longrightarrow> h' ! b = h ! b" by (simp add: h')
  have up': "h' ! up = Profile (po\<lparr>ProfileStore.dia := d\<rparr>)" using po(1) by (simp add: h')
  have f: "attrs (h ! up) = po" using po(2) by simp
  note rd = read_profile_frame[OF rp len same, unfolded f]
  have "read_profile h' up = Some (P\<lparr>ProfileStore.dia := d\<rparr>)"
    unfolding read_profile_Some
    apply (rule exI[of _ "po\<lparr>ProfileStore.dia := d\<rparr>"])
    using up' po(1) len rd(1-5) sc
    by simp
  then show "read_profile (set_dia h up d) up = Some (P\<lparr>ProfileStore.dia := d\<rparr>)"
    by (simp add: h'_def)
  have b: "n \<le> basal po \<and> basal po < length h
           \<and> (\<forall>y \<in> set (items (h ! basal po)). n \<le> y \<and> y < length h)"
    using fr unfolding fresh_def reachable_def Let_def f by auto
  have "fresh n h' up"
    by (rule fresh_frame[OF rp fr len same up'])
      (use b rd(6)[of "basal po"] h' in \<open>auto simp: f\<close>)
  then show "fresh n (set_dia h up d) up" by (simp add: h'_def)
  show "length (set_dia h up d) = length h" using h' by (simp add: h'_def[symmetric])
  show "\<forall>b < length h. b \<noteq> up \<longrightarrow> set_dia h up d ! b = h ! b"
    using same by (simp add: h'_def)
qed

subsection \<open>\<open>apply_recommendations\<close> as a whole\<close>

lemma prefixI:
  assumes "length h \<le> length h'" "\<forall>b < length h. h' ! b = h ! b"
  shows "\<exists>ext. h' = h @ ext"
proof -
  have "take (length h) h' = h"
    using assms by (intro nth_equalityI) simp_all
  then have "h' = h @ drop (length h) h'" by (metis append_take_drop_id)
  then show ?thesis ..
qed

lemma apply_recommendations_spec:
  assumes rp: "read_profile h p = Some P" and run: "apply_recommendations h p R = (r, h')"
  shows "\<exists>ext. h' = h @ ext"
    and "case new_basal (result R) (basal P) of
           Inl e \<Rightarrow> r = Inl e
         | Inr ns \<Rightarrow> \<exists>up. r = Inr up \<and> fresh (length h) h' up
                       \<and> read_profile h' up = Some (merged P (result R) ns)"
proof -
  define res where "res = result R"
  define n where "n = length h"
  obtain up h1 where c: "model_copy_deep h p = (up, h1)" by (metis surj_pair)
  define h2 where "h2 = foldl (\<lambda>h entry. set_value h entry (carb_ratio res)) h1
                 (items (h1 ! carbratio (attrs (h1 ! up))))"
  define h3 where "h3 = foldl (\<lambda>h entry. set_value h entry (AutotuneResult.sens res)) h2
                 (items (h2 ! ProfileStore.sens (attrs (h2 ! up))))"
  define bp where "bp = (if basalprofile res \<noteq> [] then
               (let (l, h') = alloc h3 (ListObj [])
                in basal_loop (set_basal h' up l) up (basalprofile res))
             else (Inr (), h3))"
  obtain r4 h4 where b: "bp = (r4, h4)" by (metis surj_pair)
  define h5 where "h5 = (if truthy (AutotuneResult.dia res)
                        then set_dia h4 up (the (AutotuneResult.dia res)) else h4)"
  have "apply_recommendations h p R =
          (case bp of (r4, h4) \<Rightarrow>
             (case r4 of Inl e \<Rightarrow> (Inl e, h4)
              | Inr _ \<Rightarrow> (Inr up, if truthy (AutotuneResult.dia res)
                        then set_dia h4 up (the (AutotuneResult.dia res)) else h4)))"
    unfolding apply_recommendations_def bp_def h3_def h2_def res_def Let_def c
    by (simp only: prod.case)
  then have fin: "(r, h') = (case r4 of Inl e \<Rightarrow> (Inl e, h4) | Inr _ \<Rightarrow> (Inr up, h5))"
    using run b unfolding h5_def by (simp only: prod.case)
  define P2 where "P2 = P\<lparr>carbratio := map (\<lambda>e. e\<lparr>value := carb_ratio res\<rparr>) (carbratio P)\<rparr>"
  define P3 where "P3 = P2\<lparr>ProfileStore.sens :=
                          map (\<lambda>e. e\<lparr>value := AutotuneResult.sens res\<rparr>) (ProfileStore.sens P2)\<rparr>"
  note s1 = model_copy_deep_read[OF rp c]
  from s1 obtain ext1 where e1: "h1 = h @ ext1" by blast
  have rp1: "read_profile h1 up = Some P" and fr1: "fresh n h1 up" using s1 by (simp_all add: n_def)
  note s2 = carbratio_loop_read[OF rp1 h2_def]
  have rp2: "read_profile h2 up = Some P2" using s2(1) by (simp add: P2_def)
  have fr2: "fresh n h2 up" using fr1 s2(2,4) by (simp add: fresh_def)
  have old2: "h2 ! b = h ! b" if "b < n" for b
  proof -
    have "b \<notin> reachable h1 up" using fr1 that by (auto simp: fresh_def)
    then have "h2 ! b = h1 ! b" using s2(3)[of b] that e1 by (simp add: n_def)
    then show ?thesis using that e1 by (simp add: n_def nth_append)
  qed
  note s3 = sens_loop_read[OF rp2 h3_def]
  have rp3: "read_profile h3 up = Some P3" using s3(1) by (simp add: P3_def)
  have fr3: "fresh n h3 up" using fr2 s3(2,4) by (simp add: fresh_def)
  have len3: "n \<le> length h3" using s3(2) s2(2) e1 by (simp add: n_def)
  have old3: "h3 ! b = h ! b" if "b < n" for b
  proof -
    have "b \<notin> reachable h2 up" using fr2 that by (auto simp: fresh_def)
    then have "h3 ! b = h2 ! b" using s3(3)[of b] that e1 s2(2) by (simp add: n_def)
    then show ?thesis using old2[OF that] by simp
  qed
  have upn: "n \<le> up" using fr3 by (auto simp: fresh_def reachable_def Let_def)
  have s4: "n \<le> length h4 \<and> (\<forall>b < n. h4 ! b = h ! b) \<and>
    (case new_basal res (basal P) of
       Inl e \<Rightarrow> r4 = Inl e
     | Inr ns \<Rightarrow> (\<exists>u. r4 = Inr u) \<and> read_profile h4 up = Some (P3\<lparr>basal := ns\<rparr>) \<and> fresh n h4 up)"
  proof (cases "basalprofile res = []")
    case True
    then have "r4 = Inr ()" "h4 = h3" using b by (simp_all add: bp_def)
    moreover have "P3\<lparr>basal := basal P\<rparr> = P3" by (simp add: P3_def P2_def)
    ultimately show ?thesis using True len3 old3 rp3 fr3 by (simp add: new_basal_def)
  next
    case False
    then have run4: "(let (l, h') = alloc h3 (ListObj [])
               in basal_loop (set_basal h' up l) up (basalprofile res)) = (r4, h4)"
      using b by (simp add: bp_def)
    note q = basal_phase[OF rp3 fr3 run4]
    have "n \<le> length h4" using q(1) len3 by simp
    moreover have "\<forall>b < n. h4 ! b = h ! b" using q(2) old3 upn len3 by auto
    ultimately show ?thesis using q(3) False
      by (auto simp: new_basal_def split: sum.splits)
  qed
  show "\<exists>ext. h' = h @ ext"
  proof (rule prefixI)
    have l5: "length h5 = length h4" "\<forall>b < n. h5 ! b = h4 ! b"
      using upn s4 by (auto simp: h5_def set_dia_def)
    have "h' = h4 \<or> h' = h5" using fin by (cases r4) simp_all
    then show "length h \<le> length h'" "\<forall>b < length h. h' ! b = h ! b"
      using s4 l5 by (auto simp: n_def)
  qed
  show "case new_basal (result R) (basal P) of
           Inl e \<Rightarrow> r = Inl e
         | Inr ns \<Rightarrow> \<exists>up. r = Inr up \<and> fresh (length h) h' up
                       \<and> read_profile h' up = Some (merged P (result R) ns)"
  proof (cases "new_basal res (basal P)")
    case (Inl e)
    then show ?thesis using s4 fin by (simp add: res_def)
  next
    case (Inr ns)
    with s4 obtain u where r4: "r4 = Inr u"
      and rp4: "read_profile h4 up = Some (P3\<lparr>basal := ns\<rparr>)" and fr4: "fresh n h4 up"
      by auto
    from fin r4 have rr: "r = Inr up" "h' = h5" by simp_all
    have "fresh n h5 up \<and> read_profile h5 up = Some (merged P res ns)"
    proof (cases "truthy (AutotuneResult.dia res)")
      case True
      then show ?thesis
        using dia_phase(1,2)[OF rp4 fr4, of "the (AutotuneResult.dia res)"]
        by (simp add: h5_def merged_def P3_def P2_def)
    next
      case False
      then show ?thesis using rp4 fr4
        by (simp add: h5_def merged_def P3_def P2_def)
    qed
    then show ?thesis using Inr rr by (simp add: res_def n_def)
  qed
qed

subsection \<open>Start times written \<open>HH:MM:SS\<close>\<close>

lemma hhmmss_cases:
  assumes "hhmmss s"
  obtains a b c d e f where "s = [a, b, CHR '':'', c, d, CHR '':'', e, f]"
    "isdigit a" "isdigit b" "isdigit c" "isdigit d" "isdigit e" "isdigit f"
  using assms by (cases s rule: hhmmss.cases) auto

lemma isdigit_not_special:
  "isdigit c \<Longrightarrow> c \<noteq> CHR '':'' \<and> c \<noteq> CHR ''-'' \<and> c \<noteq> CHR ''+'' \<and> \<not> isspace c"
  by (auto simp: isdigit_def isspace_def)

lemma digit_nonneg: "isdigit c \<Longrightarrow> 0 \<le> digit c"
  by (simp add: isdigit_def digit_def)

lemma py_int_two_digits:
  assumes "isdigit a" "isdigit b"
  shows "py_int [a, b] = Inr (two_digits a b)"
  using assms isdigit_not_special[of a] isdigit_not_special[of b]
  by (simp add: py_int_def strip_def unsigned_def two_digits_def Let_def)

lemma convert_basal_hhmmss:
  assumes "hhmmss (start b)" "0 \<le> rate b"
  shows "convert_basal b = Inr (spec_basal_entry b)"
proof -
  from assms(1) obtain a1 a2 c d e f where s: "start b = [a1, a2, CHR '':'', c, d, CHR '':'', e, f]"
    and dg: "isdigit a1" "isdigit a2" "isdigit c" "isdigit d" "isdigit e" "isdigit f"
    by (rule hhmmss_cases)
  have sp: "split CHR '':'' (start b) = [[a1, a2], [c, d], [e, f]]"
    using dg isdigit_not_special[of a1] isdigit_not_special[of a2] isdigit_not_special[of c]
      isdigit_not_special[of d] isdigit_not_special[of e] isdigit_not_special[of f]
    by (simp add: s)
  have nn: "0 \<le> two_digits a1 a2 * 3600 + two_digits c d * 60"
    using dg digit_nonneg by (simp add: two_digits_def)
  have cb: "convert_basal b =
      new_BasalScheduleEntry [a1, a2, CHR '':'', c, d] (rate b)
        (two_digits a1 a2 * 3600 + two_digits c d * 60)"
    using dg by (simp add: convert_basal_def sp getitem_def py_int_two_digits Let_def)
  have tr: "spec_basal_entry b = \<lparr>time = [a1, a2, CHR '':'', c, d], value = rate b,
      timeAsSeconds = two_digits a1 a2 * 3600 + two_digits c d * 60\<rparr>"
    by (simp add: spec_basal_entry_def s)
  show ?thesis
    unfolding cb tr using assms(2) nn by (simp add: new_BasalScheduleEntry_def)
qed

lemma convert_all_hhmmss:
  assumes "\<forall>b \<in> set bs. hhmmss (start b) \<and> 0 \<le> rate b"
  shows "convert_all bs = Inr (map spec_basal_entry bs)"
  using assms by (induction bs) (simp_all add: convert_basal_hhmmss)

subsection \<open>The claims on \<open>apply_recommendations\<close>\<close>

lemma read_profile_append:
  assumes "read_profile h p = Some P"
  shows "read_profile (h @ ext) p = Some P"
proof -
  have len: "length h \<le> length (h @ ext)" by simp
  have same: "\<forall>b < length h. b \<noteq> p \<longrightarrow> (h @ ext) ! b = h ! b" by (simp add: nth_append)
  from assms obtain po where po: "p < length h" "h ! p = Profile po"
    and sc: "ProfileStore.dia P = ProfileStore.dia po" "timezone P = timezone po" "ProfileStore.units P = ProfileStore.units po"
    unfolding read_profile_Some by blast
  have f: "attrs (h ! p) = po" using po(2) by simp
  note rd = read_profile_frame[OF assms len same, unfolded f]
  show ?thesis
    unfolding read_profile_Some
    apply (rule exI[of _ po])
    using po rd(1-5) sc by (simp add: nth_append)
qed

lemma reachable_append:
  assumes "read_profile h p = Some P" "a \<in> reachable (h @ ext) p"
  shows "a < length h"
proof -
  have len: "length h \<le> length (h @ ext)" by simp
  have same: "\<forall>b < length h. b \<noteq> p \<longrightarrow> (h @ ext) ! b = h ! b" by (simp add: nth_append)
  from assms(1) obtain po where po: "p < length h" "h ! p = Profile po"
    and cr: "get_list h (get_entry h CarbRatioEntry) (carbratio po) = Some (carbratio P)"
    and se: "get_list h (get_entry h SensitivityEntry) (ProfileStore.sens po) = Some (ProfileStore.sens P)"
    and ba: "get_list h (get_entry h BasalScheduleEntry) (basal po) = Some (basal P)"
    and lo: "get_list h (get_target h) (target_low po) = Some (target_low P)"
    and hi: "get_list h (get_target h) (target_high po) = Some (target_high P)"
    unfolding read_profile_Some by blast
  note l1 = entry_list_leaves[OF cr] and l2 = entry_list_leaves[OF se]
    and l3 = entry_list_leaves[OF ba] and l4 = target_list_leaves[OF lo]
    and l5 = target_list_leaves[OF hi]
  have f: "attrs (h ! p) = po" "attrs ((h @ ext) ! p) = po" using po by (simp_all add: nth_append)
  note it = read_profile_frame(6)[OF assms(1) len same, unfolded f]
  from assms(2) consider "a = p"
    | "a \<in> {carbratio po, ProfileStore.sens po, basal po, target_low po, target_high po}"
    | l where "l \<in> {carbratio po, ProfileStore.sens po, basal po, target_low po, target_high po}"
        "a \<in> set (items ((h @ ext) ! l))"
    unfolding reachable_def Let_def f by auto
  then show ?thesis
  proof cases
    case 1
    then show ?thesis using po by simp
  next
    case 2
    then show ?thesis using l1(1) l2(1) l3(1) l4(1) l5(1) by auto
  next
    case 3
    then have "a \<in> set (items (h ! l))" using it[of l] by simp
    then show ?thesis using 3(1) l1(3) l2(3) l3(3) l4(3) l5(3) by auto
  qed
qed

text \<open>
  Claim C1. \<open>apply_recommendations\<close> does not mutate the profile it is given. Whatever
  the recommendations are, and whether the call returns or raises, the store after the
  call is the store before it with new objects appended, so every object that existed
  keeps its contents; in particular the profile read at \<open>profile\<close> has the same
  \<open>dia\<close>, \<open>carbratio\<close>, \<open>sens\<close>, \<open>basal\<close>, \<open>target_low\<close>, \<open>target_high\<close>,
  \<open>timezone\<close> and \<open>units\<close> as before. When a profile is returned, no mutable object
  (the instance, its five lists, their entries) is shared between it and the original.
\<close>

theorem apply_recommendations_frame:
  assumes "read_profile h profile = Some P"
    and "apply_recommendations h profile R = (r, h')"
  shows "(\<exists>ext. h' = h @ ext) \<and> read_profile h' profile = Some P
         \<and> (\<forall>updated. r = Inr updated \<longrightarrow> reachable h' updated \<inter> reachable h' profile = {})"
proof -
  note sp = apply_recommendations_spec[OF assms]
  from sp(1) obtain ext where ext: "h' = h @ ext" ..
  have rd: "read_profile h' profile = Some P"
    unfolding ext by (rule read_profile_append[OF assms(1)])
  have "reachable h' updated \<inter> reachable h' profile = {}" if "r = Inr updated" for updated
  proof -
    from sp(2) that have "fresh (length h) h' updated"
      by (cases "new_basal (result R) (basal P)") auto
    then have "\<forall>a \<in> reachable h' updated. length h \<le> a" by (simp add: fresh_def)
    moreover have "\<forall>a \<in> reachable h' profile. a < length h"
      using reachable_append[OF assms(1)] ext by blast
    ultimately show ?thesis by fastforce
  qed
  then show ?thesis using sp(1) rd by blast
qed

lemma apply_recommendations_returned:
  assumes "read_profile h profile = Some P"
    and "apply_recommendations h profile R = (Inr updated, h')"
  shows "\<exists>ns. new_basal (result R) (basal P) = Inr ns
            \<and> read_profile h' updated = Some (merged P (result R) ns)"
  using apply_recommendations_spec(2)[OF assms]
  by (cases "new_basal (result R) (basal P)") auto

text \<open>
  Claim C2. The carb-ratio schedule of the returned profile has as many entries as the
  original one; each has the recommendation's scalar \<open>carb_ratio\<close> as its value and the
  \<open>time\<close> and \<open>timeAsSeconds\<close> of the entry at the same position of the original.
  The sensitivity schedule is treated the same way with the scalar \<open>sens\<close>.
\<close>

theorem apply_recommendations_uniform_override:
  assumes "read_profile h profile = Some P"
    and "apply_recommendations h profile R = (Inr updated, h')"
  shows "\<exists>P'. read_profile h' updated = Some P'
     \<and> length (carbratio P') = length (carbratio P)
     \<and> (\<forall>i < length (carbratio P).
           value (carbratio P' ! i) = carb_ratio (result R)
         \<and> time (carbratio P' ! i) = time (carbratio P ! i)
         \<and> timeAsSeconds (carbratio P' ! i) = timeAsSeconds (carbratio P ! i))
     \<and> length (ProfileStore.sens P') = length (ProfileStore.sens P)
     \<and> (\<forall>i < length (ProfileStore.sens P).
           value (ProfileStore.sens P' ! i) = AutotuneResult.sens (result R)
         \<and> time (ProfileStore.sens P' ! i) = time (ProfileStore.sens P ! i)
         \<and> timeAsSeconds (ProfileStore.sens P' ! i) = timeAsSeconds (ProfileStore.sens P ! i))"
proof -
  from apply_recommendations_returned[OF assms] obtain ns
    where "read_profile h' updated = Some (merged P (result R) ns)" by blast
  then show ?thesis by (simp add: merged_def)
qed

text \<open>
  Claim C3. For a recommendation whose basal schedule is not empty, with start times
  written \<open>HH:MM:SS\<close> and rates that passed validation, the call returns, and the basal
  schedule of the returned profile is built from the recommendation alone, one entry per
  recommended entry and in the same order: \<open>time\<close> is the start time cut after
  \<open>HH:MM\<close>, \<open>timeAsSeconds\<close> is \<open>hours * 3600 + minutes * 60\<close> of that time and
  \<open>value\<close> is the rate. The witness is the entry \<open>06:30:00\<close> with rate 1.3.
\<close>

theorem apply_recommendations_basal_replaced:
  assumes "read_profile h profile = Some P"
    and "basalprofile (result R) \<noteq> []"
    and "\<forall>b \<in> set (basalprofile (result R)). hhmmss (start b) \<and> 0 \<le> rate b"
  shows "\<exists>updated h' P'. apply_recommendations h profile R = (Inr updated, h')
     \<and> read_profile h' updated = Some P'
     \<and> basal P' = map spec_basal_entry (basalprofile (result R))"
proof -
  obtain r h' where run: "apply_recommendations h profile R = (r, h')" by (metis surj_pair)
  have nb: "new_basal (result R) (basal P) = Inr (map spec_basal_entry (basalprofile (result R)))"
    using assms(2) convert_all_hhmmss[OF assms(3)] by (simp add: new_basal_def)
  from apply_recommendations_spec(2)[OF assms(1) run] nb
  obtain up where "r = Inr up"
    "read_profile h' up = Some (merged P (result R) (map spec_basal_entry (basalprofile (result R))))"
    by auto
  then show ?thesis using run by (simp add: merged_def)
qed

text \<open>
  Claim C4, as amended. When the recommendation's basal schedule is empty the
  replacement is skipped (the guard \<open>if result.basalprofile\<close> is false for an empty
  list): the call returns and the basal schedule of the returned profile equals the
  original profile's basal schedule.
\<close>

theorem apply_recommendations_empty_basal_kept:
  assumes "read_profile h profile = Some P"
    and "basalprofile (result R) = []"
  shows "\<exists>updated h' P'. apply_recommendations h profile R = (Inr updated, h')
     \<and> read_profile h' updated = Some P'
     \<and> basal P' = basal P"
proof -
  obtain r h' where run: "apply_recommendations h profile R = (r, h')" by (metis surj_pair)
  have nb: "new_basal (result R) (basal P) = Inr (basal P)"
    using assms(2) by (simp add: new_basal_def)
  from apply_recommendations_spec(2)[OF assms(1) run] nb
  obtain up where "r = Inr up" "read_profile h' up = Some (merged P (result R) (basal P))"
    by auto
  then show ?thesis using run by (simp add: merged_def)
qed

text \<open>
  Claim C5. For a recommendation that satisfies the constraints of its model class, the
  \<open>dia\<close> of the returned profile is the recommendation's \<open>dia\<close> when that is
  present and the original profile's \<open>dia\<close> when it is \<open>None\<close>.
\<close>

theorem apply_recommendations_dia:
  assumes "read_profile h profile = Some P"
    and "valid_AutotuneRecommendations R"
    and "apply_recommendations h profile R = (Inr updated, h')"
  shows "\<exists>P'. read_profile h' updated = Some P'
     \<and> ProfileStore.dia P' =
         (case AutotuneResult.dia (result R) of Some d \<Rightarrow> d | None \<Rightarrow> ProfileStore.dia P)"
proof -
  from apply_recommendations_returned[OF assms(1,3)] obtain ns
    where rd: "read_profile h' updated = Some (merged P (result R) ns)" by blast
  have "truthy (AutotuneResult.dia (result R)) \<longleftrightarrow> AutotuneResult.dia (result R) \<noteq> None"
    using assms(2)
    by (cases "AutotuneResult.dia (result R)")
      (auto simp: valid_AutotuneRecommendations_def valid_AutotuneResult_def)
  then show ?thesis using rd
    by (cases "AutotuneResult.dia (result R)") (auto simp: merged_def)
qed

text \<open>
  The source tests the truth value of \<open>result.dia\<close>, not whether it is \<open>None\<close>: a
  \<open>dia\<close> of \<open>0.0\<close>, which the model class rejects, would leave the profile's own.
\<close>

lemma apply_recommendations_dia_zero:
  assumes "read_profile h profile = Some P"
    and "AutotuneResult.dia (result R) = Some 0"
    and "apply_recommendations h profile R = (Inr updated, h')"
  shows "\<exists>P'. read_profile h' updated = Some P' \<and> ProfileStore.dia P' = ProfileStore.dia P"
proof -
  from apply_recommendations_returned[OF assms(1,3)] obtain ns
    where "read_profile h' updated = Some (merged P (result R) ns)" by blast
  then show ?thesis using assms(2) by (simp add: merged_def)
qed

text \<open>
  Claim C9. The returned profile has the \<open>target_low\<close>, \<open>target_high\<close>, \<open>timezone\<close>
  and \<open>units\<close> of the original profile.
\<close>

theorem apply_recommendations_untouched:
  assumes "read_profile h profile = Some P"
    and "apply_recommendations h profile R = (Inr updated, h')"
  shows "\<exists>P'. read_profile h' updated = Some P'
     \<and> target_low P' = target_low P \<and> target_high P' = target_high P
     \<and> timezone P' = timezone P \<and> ProfileStore.units P' = ProfileStore.units P"
proof -
  from apply_recommendations_returned[OF assms] obtain ns
    where "read_profile h' updated = Some (merged P (result R) ns)" by blast
  then show ?thesis by (simp add: merged_def)
qed

lemma ex_read: "read_profile ex_store 11 = Some ex_profile"
  by code_simp

lemma ex_run:
  "apply_recommendations ex_store 11 (ex_rec d) =
     (Inr 23, snd (apply_recommendations ex_store 11 (ex_rec d)))"
proof -
  have "fst (apply_recommendations ex_store 11 (ex_rec d)) = Inr 23"
    by (cases d) code_simp+
  then show ?thesis by (metis prod.collapse)
qed

theorem apply_recommendations_frame_witness:
  "read_profile ex_store 11 = Some ex_profile
   \<and> apply_recommendations ex_store 11 (ex_rec None) =
       (Inr 23, snd (apply_recommendations ex_store 11 (ex_rec None)))
   \<and> (\<exists>ext. snd (apply_recommendations ex_store 11 (ex_rec None)) = ex_store @ ext)
   \<and> read_profile (snd (apply_recommendations ex_store 11 (ex_rec None))) 11 = Some ex_profile
   \<and> reachable (snd (apply_recommendations ex_store 11 (ex_rec None))) 23
       \<inter> reachable (snd (apply_recommendations ex_store 11 (ex_rec None))) 11 = {}"
  using apply_recommendations_frame[OF ex_read ex_run[of None]] ex_read ex_run[of None]
  by simp

theorem apply_recommendations_uniform_override_witness:
  "read_profile ex_store 11 = Some ex_profile
   \<and> apply_recommendations ex_store 11 (ex_rec None) =
       (Inr 23, snd (apply_recommendations ex_store 11 (ex_rec None)))
   \<and> (\<exists>P'. read_profile (snd (apply_recommendations ex_store 11 (ex_rec None))) 23 = Some P'
        \<and> map value (carbratio P') = [12, 12]
        \<and> map time (carbratio P') = [''00:00'', ''12:00'']
        \<and> map timeAsSeconds (carbratio P') = [0, 43200]
        \<and> map value (ProfileStore.sens P') = [55]
        \<and> map time (ProfileStore.sens P') = [''00:00'']
        \<and> map timeAsSeconds (ProfileStore.sens P') = [0])"
proof -
  from apply_recommendations_uniform_override[OF ex_read ex_run[of None]]
  obtain P' where P': "read_profile (snd (apply_recommendations ex_store 11 (ex_rec None))) 23 = Some P'"
    and c: "length (carbratio P') = 2"
      "\<forall>i < 2. value (carbratio P' ! i) = 12
          \<and> time (carbratio P' ! i) = time (carbratio ex_profile ! i)
          \<and> timeAsSeconds (carbratio P' ! i) = timeAsSeconds (carbratio ex_profile ! i)"
    and s: "length (ProfileStore.sens P') = 1"
      "\<forall>i < 1. value (ProfileStore.sens P' ! i) = 55
          \<and> time (ProfileStore.sens P' ! i) = time (ProfileStore.sens ex_profile ! i)
          \<and> timeAsSeconds (ProfileStore.sens P' ! i) = timeAsSeconds (ProfileStore.sens ex_profile ! i)"
    by (auto simp: ex_profile_def ex_rec_def)
  have c0: "value (carbratio P' ! 0) = 12 \<and> time (carbratio P' ! 0) = ''00:00''
            \<and> timeAsSeconds (carbratio P' ! 0) = 0"
    and c1: "value (carbratio P' ! 1) = 12 \<and> time (carbratio P' ! 1) = ''12:00''
            \<and> timeAsSeconds (carbratio P' ! 1) = 43200"
    using c(2) by (simp_all add: ex_profile_def)
  have s0: "value (ProfileStore.sens P' ! 0) = 55 \<and> time (ProfileStore.sens P' ! 0) = ''00:00''
            \<and> timeAsSeconds (ProfileStore.sens P' ! 0) = 0"
    using s(2) by (simp add: ex_profile_def)
  obtain x y where xy: "carbratio P' = [x, y]"
    using c(1) by (metis (no_types) One_nat_def Suc_1 length_0_conv length_Suc_conv)
  obtain z where z: "ProfileStore.sens P' = [z]"
    using s(1) by (metis One_nat_def length_0_conv length_Suc_conv)
  show ?thesis
    using ex_read ex_run[of None] P' c0 c1 s0 by (simp add: xy z)
qed

theorem apply_recommendations_basal_replaced_witness:
  "read_profile ex_store 11 = Some ex_profile
   \<and> basalprofile (result (ex_rec None)) \<noteq> []
   \<and> basalprofile (result (ex_rec None)) = [\<lparr>start = ''06:30:00'', minutes = 60, rate = 13 / 10\<rparr>]
   \<and> hhmmss ''06:30:00'' \<and> (0::float) \<le> 13 / 10
   \<and> (\<exists>updated h' P'. apply_recommendations ex_store 11 (ex_rec None) = (Inr updated, h')
        \<and> read_profile h' updated = Some P'
        \<and> basal P' = [\<lparr>time = ''06:30'', value = 13 / 10, timeAsSeconds = 23400\<rparr>])"
proof -
  have a: "basalprofile (result (ex_rec None)) \<noteq> []" by (simp add: ex_rec_def)
  have b: "\<forall>b \<in> set (basalprofile (result (ex_rec None))). hhmmss (start b) \<and> 0 \<le> rate b"
    by (simp add: ex_rec_def isdigit_def)
  have c: "map spec_basal_entry (basalprofile (result (ex_rec None)))
           = [\<lparr>time = ''06:30'', value = 13 / 10, timeAsSeconds = 23400\<rparr>]"
    by (simp add: ex_rec_def spec_basal_entry_def two_digits_def digit_def)
  have d: "basalprofile (result (ex_rec None))
           = [\<lparr>start = ''06:30:00'', minutes = 60, rate = 13 / 10\<rparr>]"
    by (simp add: ex_rec_def)
  have e: "hhmmss ''06:30:00''" by (simp add: isdigit_def)
  show ?thesis
    using apply_recommendations_basal_replaced[OF ex_read a b] ex_read a d e unfolding c by simp
qed

text \<open>
  Claim C4 as stated fails: with an empty recommended basal schedule the returned profile
  of the example keeps the one basal entry of the original.
\<close>

theorem apply_recommendations_empty_basal_counterexample:
  "basalprofile (result ex_rec_empty) = []
   \<and> fst (apply_recommendations ex_store 11 ex_rec_empty) = Inr 23
   \<and> map_option basal (read_profile (snd (apply_recommendations ex_store 11 ex_rec_empty)) 23)
       = Some [\<lparr>time = ''00:00'', value = 1, timeAsSeconds = 0\<rparr>]
   \<and> map_option basal (read_profile (snd (apply_recommendations ex_store 11 ex_rec_empty)) 23)
       \<noteq> Some []"
  by code_simp

theorem apply_recommendations_empty_basal_kept_witness:
  "read_profile ex_store 11 = Some ex_profile
   \<and> basalprofile (result ex_rec_empty) = []
   \<and> (\<exists>updated h' P'. apply_recommendations ex_store 11 ex_rec_empty = (Inr updated, h')
        \<and> read_profile h' updated = Some P'
        \<and> basal P' = [\<lparr>time = ''00:00'', value = 1, timeAsSeconds = 0\<rparr>])"
proof -
  have a: "basalprofile (result ex_rec_empty) = []" by (simp add: ex_rec_empty_def)
  show ?thesis
    using apply_recommendations_empty_basal_kept[OF ex_read a] ex_read a
    by (simp add: ex_profile_def)
qed

theorem apply_recommendations_dia_witness:
  "read_profile ex_store 11 = Some ex_profile
   \<and> valid_AutotuneRecommendations (ex_rec (Some (11 / 2)))
   \<and> valid_AutotuneRecommendations (ex_rec None)
   \<and> apply_recommendations ex_store 11 (ex_rec (Some (11 / 2))) =
       (Inr 23, snd (apply_recommendations ex_store 11 (ex_rec (Some (11 / 2)))))
   \<and> apply_recommendations ex_store 11 (ex_rec None) =
       (Inr 23, snd (apply_recommendations ex_store 11 (ex_rec None)))
   \<and> (\<exists>P'. read_profile (snd (apply_recommendations ex_store 11 (ex_rec (Some (11 / 2))))) 23
              = Some P' \<and> ProfileStore.dia P' = 11 / 2)
   \<and> (\<exists>P'. read_profile (snd (apply_recommendations ex_store 11 (ex_rec None))) 23
              = Some P' \<and> ProfileStore.dia P' = 5)"
proof -
  have v: "valid_AutotuneRecommendations (ex_rec (Some (11 / 2)))"
    "valid_AutotuneRecommendations (ex_rec None)"
    by (simp_all add: valid_AutotuneRecommendations_def valid_AutotuneResult_def ex_rec_def)
  have r: "AutotuneResult.dia (result (ex_rec d)) = d" for d by (simp add: ex_rec_def)
  show ?thesis
    using apply_recommendations_dia[OF ex_read v(1) ex_run[of "Some (11 / 2)"]]
      apply_recommendations_dia[OF ex_read v(2) ex_run[of None]]
      ex_read v ex_run[of "Some (11 / 2)"] ex_run[of None]
    by (simp add: r ex_profile_def)
qed

theorem apply_recommendations_untouched_witness:
  "read_profile ex_store 11 = Some ex_profile
   \<and> apply_recommendations ex_store 11 (ex_rec None) =
       (Inr 23, snd (apply_recommendations ex_store 11 (ex_rec None)))
   \<and> (\<exists>P'. read_profile (snd (apply_recommendations ex_store 11 (ex_rec None))) 23 = Some P'
        \<and> target_low P' = [\<lparr>time = ''00:00'', value = 100, timeAsSeconds = 0, low = 90, high = 110\<rparr>]
        \<and> target_high P' = [\<lparr>time = ''00:00'', value = 120, timeAsSeconds = 0, low = 110, high = 130\<rparr>]
        \<and> timezone P' = ''UTC'' \<and> ProfileStore.units P' = ''mg/dL'')"
  using apply_recommendations_untouched[OF ex_read ex_run[of None]] ex_read ex_run[of None]
  by (simp add: ex_profile_def)

subsection \<open>\<open>get_historical_data\<close>\<close>

lemma accepted_Cons:
  "accepted v (r # rs) = (case v r of Inr x \<Rightarrow> x # accepted v rs | Inl e \<Rightarrow> accepted v rs)"
  by (simp add: accepted_def map_filter_simps split: sum.splits)

lemma rejected_Cons:
  "rejected v (r # rs) = (case v r of Inr x \<Rightarrow> rejected v rs | Inl e \<Rightarrow> Suc (rejected v rs))"
  by (simp add: rejected_def split: sum.splits)

lemma entries_loop_eq:
  "entries_loop cv raws acc ws =
     (acc @ accepted (new_NightscoutEntry cv) raws,
      ws @ replicate (rejected (new_NightscoutEntry cv) raws) (Warning ''Skipping invalid entry''))"
proof (induction raws arbitrary: acc ws)
  case Nil
  then show ?case by (simp add: accepted_def rejected_def map_filter_simps)
next
  case (Cons r rs)
  show ?case
  proof (cases "new_NightscoutEntry cv r")
    case (Inl e)
    have "entries_loop cv (r # rs) acc ws
          = entries_loop cv rs acc (ws @ [Warning ''Skipping invalid entry''])"
      using Inl by simp
    also note Cons.IH
    finally show ?thesis using Inl by (simp add: accepted_Cons rejected_Cons)
  next
    case (Inr x)
    have "entries_loop cv (r # rs) acc ws = entries_loop cv rs (acc @ [x]) ws"
      using Inr by simp
    also note Cons.IH
    finally show ?thesis using Inr by (simp add: accepted_Cons rejected_Cons)
  qed
qed

lemma treatments_loop_eq:
  "treatments_loop cv raws acc ws =
     (acc @ accepted (new_NightscoutTreatment cv) raws,
      ws @ replicate (rejected (new_NightscoutTreatment cv) raws)
              (Warning ''Skipping invalid treatment''))"
proof (induction raws arbitrary: acc ws)
  case Nil
  then show ?case by (simp add: accepted_def rejected_def map_filter_simps)
next
  case (Cons r rs)
  show ?case
  proof (cases "new_NightscoutTreatment cv r")
    case (Inl e)
    have "treatments_loop cv (r # rs) acc ws
          = treatments_loop cv rs acc (ws @ [Warning ''Skipping invalid treatment''])"
      using Inl by simp
    also note Cons.IH
    finally show ?thesis using Inl by (simp add: accepted_Cons rejected_Cons)
  next
    case (Inr x)
    have "treatments_loop cv (r # rs) acc ws = treatments_loop cv rs (acc @ [x]) ws"
      using Inr by simp
    also note Cons.IH
    finally show ?thesis using Inr by (simp add: accepted_Cons rejected_Cons)
  qed
qed

text \<open>
  Claim C6. Given the two raw lists from the collaborator, \<open>get_historical_data\<close>
  returns a \<open>HistoricalData\<close> and never an exception, whatever the records are:
  the entries and the treatments are exactly the raw records that validate, in their
  order, every other record is dropped with one warning, and a list without any valid
  record gives an empty list. The only exception the function can raise itself comes
  from the date arithmetic on \<open>days\<close>, before any record is looked at. The witness is
  the list of one valid and one invalid entry.
\<close>

theorem get_historical_data_skips_invalid:
  assumes "timedelta_days days = Inr delta" and "datetime_sub now delta = Inr start'"
  shows "get_historical_data cv now (Inr (entries_raw, treatments_raw)) days =
     (Inr \<lparr>entries = accepted (new_NightscoutEntry cv) entries_raw,
           treatments = accepted (new_NightscoutTreatment cv) treatments_raw,
           start_date = start', end_date = now\<rparr>,
      replicate (rejected (new_NightscoutEntry cv) entries_raw) (Warning ''Skipping invalid entry'')
      @ replicate (rejected (new_NightscoutTreatment cv) treatments_raw)
          (Warning ''Skipping invalid treatment''))"
  using assms by (simp add: get_historical_data_def entries_loop_eq treatments_loop_eq)

theorem get_historical_data_skips_invalid_witness:
  "timedelta_days 7 = Inr 604800000000
   \<and> datetime_sub ex_now 604800000000 = Inr 63839059200000000
   \<and> get_historical_data strict ex_now (Inr ([ex_valid_entry, ex_invalid_entry], [])) 7 =
       (Inr \<lparr>entries = [\<lparr>sgv = 120, date = 1704067200000,
                          dateString = ''2024-01-01T00:00:00Z'', type' = ''sgv'',
                          direction = None, device = None\<rparr>],
             treatments = [], start_date = 63839059200000000, end_date = ex_now\<rparr>,
        [Warning ''Skipping invalid entry''])"
proof -
  have a: "timedelta_days 7 = Inr 604800000000" by (simp add: timedelta_days_def)
  have b: "datetime_sub ex_now 604800000000 = Inr 63839059200000000"
    by (simp add: datetime_sub_def ex_now_def datetime_max_def)
  have c: "accepted (new_NightscoutEntry strict) [ex_valid_entry, ex_invalid_entry]
           = [\<lparr>sgv = 120, date = 1704067200000,
                          dateString = ''2024-01-01T00:00:00Z'', type' = ''sgv'',
                          direction = None, device = None\<rparr>]"
    by code_simp
  have d: "rejected (new_NightscoutEntry strict) [ex_valid_entry, ex_invalid_entry] = 1"
    by code_simp
  have e: "accepted (new_NightscoutTreatment strict) [] = []"
    "rejected (new_NightscoutTreatment strict) [] = 0"
    by (simp_all add: accepted_def rejected_def map_filter_simps)
  show ?thesis
    using get_historical_data_skips_invalid[OF a b, of strict "[ex_valid_entry, ex_invalid_entry]" "[]"]
      a b c d e by simp
qed

subsection \<open>\<open>update_profile\<close> and \<open>sync_profile\<close>\<close>

lemma store_profile_data_fails:
  assumes "map_of env ''target_profile'' = None"
  shows "\<exists>e. store_profile_data env cp = Inl e"
  using assms
  by (auto simp: store_profile_data_def load_name_def split: sum.splits option.splits)

lemma store_profile_data_dict:
  assumes "map_of env ''target_profile'' = None" "map_of env ''profile_data'' = Some pd"
    "map_of d ''store'' = Some s"
  shows "store_profile_data env (DictObj d) = Inl (NameError ''target_profile'')"
  using assms by (simp add: store_profile_data_def load_name_def)

text \<open>
  Claim C10. Every call of \<open>update_profile\<close> ends in an exception and leaves the
  remote store as it was: no POST is made. The item assignment of line 256 needs the
  value of \<open>target_profile\<close>, which is bound nowhere, and the POST needs the attribute
  \<open>session\<close>, which the client does not have.
\<close>

theorem update_profile_never_posts:
  "\<exists>e. update_profile cv rem now_ms profile_data profile_name' = (Inl e, rem)"
proof -
  define env where "env = [(''profile_data'', profile_data),
       (''profile_name'', case profile_name' of None \<Rightarrow> JNull | Some n \<Rightarrow> JStr n)]"
  have "map_of env ''target_profile'' = None" by (simp add: env_def)
  then have f: "store_profile_data env cp \<noteq> Inr x" for cp x
    using store_profile_data_fails[of env cp] by auto
  show ?thesis
    unfolding update_profile_def Let_def env_def[symmetric]
    by (simp add: f split: sum.splits)
qed

lemma get_profiles_without_default:
  assumes "get_response rem = Inr (JList (JDict d # others))" "map_of d ''defaultProfile'' = None"
  shows "\<exists>bad. get_profiles cv rem = Inl (ValidationError bad) \<and> ''defaultProfile'' \<in> set bad"
  using assms
  by (simp add: get_profiles_def new_NightscoutProfile_def required_def failed_def Let_def)

text \<open>
  Claim C8, at the document of the repository's own test (no \<open>defaultProfile\<close>) and
  no profile name: the call fails before any write and the remote store is unchanged,
  but with the validation error of the document class for its missing fields, not with
  the error for an unresolved profile name that the test expects.
\<close>

theorem sync_profile_without_default:
  "sync_profile strict ex_remote_no_default now_ms ex_profile None =
     (Inl (ValidationError [''defaultProfile'', ''startDate'', ''units'']), ex_remote_no_default)"
proof -
  have "get_profiles strict ex_remote_no_default =
          Inl (ValidationError [''defaultProfile'', ''startDate'', ''units''])"
    by (simp add: get_profiles_def ex_remote_no_default_def new_NightscoutProfile_def
        required_def failed_def strict_def dict_of_def Let_def)
  then show ?thesis
    by (simp add: sync_profile_def update_profile_def Let_def)
qed

subsection \<open>\<open>run_autotune\<close>\<close>

text \<open>
  Claim C7. When the process exits with status 0 and the file
  \<open>autotune/autotune_recommendations.json\<close> is not in the working directory,
  \<open>run_autotune\<close> raises the \<open>ValueError\<close> for the missing file and returns no
  recommendation; that error is none of the errors raised for a time-out, for an exit
  status other than 0 or for a file that does not parse.
\<close>

theorem run_autotune_no_output:
  assumes "proc (autotune_command autotune_path tmpdir days)
             (autotune_inputs dumps tmpdir profile_data es ts) = (Completed 0 out err, after)"
    and "after (tmpdir @ ''/autotune/autotune_recommendations.json'') = None"
  shows "run_autotune dumps loads proc autotune_path tmpdir profile_data es ts days
           = Inl no_recommendations
       \<and> no_recommendations \<noteq> ValueError ''Autotune analysis timed out''
       \<and> (\<forall>rc so se. no_recommendations \<noteq> CalledProcessError rc so se)
       \<and> (\<forall>msg. no_recommendations \<noteq> JSONDecodeError msg)"
  using assms by (simp add: run_autotune_def no_recommendations_def)

theorem run_autotune_no_output_witness:
  "ex_silent_process (autotune_command ''/usr/local/bin/oref0-autotune'' ''/tmp/test'' 7)
       (autotune_inputs (\<lambda>v. ''{}'') ''/tmp/test'' (JDict []) [] [])
     = (Completed 0 ''Completed'' '''',
        autotune_inputs (\<lambda>v. ''{}'') ''/tmp/test'' (JDict []) [] [])
   \<and> autotune_inputs (\<lambda>v. ''{}'') ''/tmp/test'' (JDict []) [] []
        (''/tmp/test'' @ ''/autotune/autotune_recommendations.json'') = None
   \<and> run_autotune (\<lambda>v. ''{}'') (\<lambda>s. Inr JNull) ex_silent_process
        ''/usr/local/bin/oref0-autotune'' ''/tmp/test'' (JDict []) [] [] 7
       = Inl no_recommendations"
proof -
  have a: "ex_silent_process (autotune_command ''/usr/local/bin/oref0-autotune'' ''/tmp/test'' 7)
       (autotune_inputs (\<lambda>v. ''{}'') ''/tmp/test'' (JDict []) [] [])
     = (Completed 0 ''Completed'' '''',
        autotune_inputs (\<lambda>v. ''{}'') ''/tmp/test'' (JDict []) [] [])"
    by (simp add: ex_silent_process_def)
  have b: "autotune_inputs (\<lambda>v. ''{}'') ''/tmp/test'' (JDict []) [] []
        (''/tmp/test'' @ ''/autotune/autotune_recommendations.json'') = None"
    by (simp add: autotune_inputs_def)
  show ?thesis
    using run_autotune_no_output[where proc = ex_silent_process
        and autotune_path = "''/usr/local/bin/oref0-autotune''" and tmpdir = "''/tmp/test''"
        and days = 7 and dumps = "\<lambda>v. ''{}''" and profile_data = "JDict []" and es = "[]"
        and ts = "[]" and loads = "\<lambda>s. Inr JNull", OF a b] a b
    by simp
qed

end
